theory Spec2Isabelle
  imports Main
begin

section \<open>Text primitives of the host language\<close>

text \<open>
  The program of \<^verbatim>\<open>parse_fa.py\<close> works on Python \<^verbatim>\<open>str\<close> values. A \<^typ>\<open>string\<close> stands
  for such a value whose code points are all below 256; a \<^typ>\<open>char\<close> is one code point.
  \<^verbatim>\<open>str.isspace\<close> holds below 256 for exactly the twelve code points listed here, and
  \<^verbatim>\<open>str.strip()\<close> and \<^verbatim>\<open>str.split()\<close> (called without arguments) use that same set.
\<close>

definition whitespace :: "char list" where
  "whitespace = [CHR 0x09, CHR 0x0A, CHR 0x0B, CHR 0x0C, CHR 0x0D,
                 CHR 0x1C, CHR 0x1D, CHR 0x1E, CHR 0x1F, CHR 0x20, CHR 0x85, CHR 0xA0]"

definition isspace :: "char \<Rightarrow> bool" where
  "isspace c = (c \<in> set whitespace)"

definition strip :: "string \<Rightarrow> string" where
  "strip s = rev (dropWhile isspace (rev (dropWhile isspace s)))"

text \<open>\<^verbatim>\<open>s.split()\<close>: the maximal runs of non-whitespace, scanned left to right; \<open>w\<close> is the
  run collected so far.\<close>

fun split_from :: "string \<Rightarrow> string \<Rightarrow> string list" where
  "split_from w [] = (if w = [] then [] else [w])"
| "split_from w (c # cs) =
     (if isspace c then (if w = [] then split_from [] cs else w # split_from [] cs)
      else split_from (w @ [c]) cs)"

definition split :: "string \<Rightarrow> string list" where
  "split s = split_from [] s"

text \<open>\<^verbatim>\<open>d.join(parts)\<close>.\<close>

fun join :: "string \<Rightarrow> string list \<Rightarrow> string" where
  "join d [] = []"
| "join d [f] = f"
| "join d (f # g # fs) = f @ d @ join d (g # fs)"

definition startswith_marker :: "string \<Rightarrow> bool" where
  "startswith_marker s = (case s of [] \<Rightarrow> False | c # _ \<Rightarrow> c = CHR ''>'')"

text \<open>
  A file opened in text mode with the default \<^verbatim>\<open>newline=None\<close> translates \<^verbatim>\<open>\r\n\<close> and a lone
  \<^verbatim>\<open>\r\<close> to \<^verbatim>\<open>\n\<close>, and iterating over it yields the lines, each with its terminating
  \<^verbatim>\<open>\n\<close>; a last line without terminator is yielded when it is not empty.
\<close>

fun universal_newlines :: "string \<Rightarrow> string" where
  "universal_newlines [] = []"
| "universal_newlines [c] = [if c = CHR 0x0D then CHR 0x0A else c]"
| "universal_newlines (c # d # ds) =
     (if c = CHR 0x0D \<and> d = CHR 0x0A then CHR 0x0A # universal_newlines ds
      else if c = CHR 0x0D then CHR 0x0A # universal_newlines (d # ds)
      else c # universal_newlines (d # ds))"

fun split_lines :: "string \<Rightarrow> string list" where
  "split_lines [] = []"
| "split_lines (c # cs) =
     (if c = CHR 0x0A then [c] # split_lines cs
      else (case split_lines cs of [] \<Rightarrow> [[c]] | l # ls \<Rightarrow> (c # l) # ls))"

definition file_lines :: "string \<Rightarrow> string list" where
  "file_lines content = split_lines (universal_newlines content)"

text \<open>
  \<^verbatim>\<open>xs[i]\<close> for an integer index: a negative index counts from the end, and an index out
  of range raises \<^verbatim>\<open>IndexError\<close>.
\<close>

datatype error =
    FileNotFoundError | IsADirectoryError | NotADirectoryError | UnicodeDecodeError | OSError
  | ValueError | IndexError

definition py_index :: "'a list \<Rightarrow> int \<Rightarrow> error + 'a" where
  "py_index xs i =
     (let n = int (length xs); j = (if i < 0 then i + n else i)
      in if 0 \<le> j \<and> j < n then Inr (xs ! nat j) else Inl IndexError)"

text \<open>
  \<^verbatim>\<open>xs[start:stop]\<close> with integer bounds: each bound is adjusted as the interpreter does
  (a negative bound has the length added once; what is still below 0 becomes 0, what is
  above the length becomes the length), and the elements at the positions from the
  adjusted start up to the adjusted stop are copied.
\<close>

definition adjust_index :: "nat \<Rightarrow> int \<Rightarrow> nat" where
  "adjust_index n i =
     (if i < 0 then (if i + int n < 0 then 0 else nat (i + int n))
      else if int n \<le> i then n else nat i)"

definition py_slice :: "'a list \<Rightarrow> int \<Rightarrow> int \<Rightarrow> 'a list" where
  "py_slice xs start stop =
     (let a = adjust_index (length xs) start; b = adjust_index (length xs) stop
      in if a < b then map (\<lambda>k. xs ! k) [a..<b] else [])"


section \<open>The parser loop of \<^verbatim>\<open>parse_fasta_file\<close>\<close>

record parser_state =
  ids :: "string list"
  sequences :: "string list"
  current_id :: "string option"
  current_sequence :: string

definition initial_state :: parser_state where
  "initial_state = \<lparr>ids = [], sequences = [], current_id = None, current_sequence = []\<rparr>"

text \<open>\<^verbatim>\<open>if current_id and current_sequence:\<close> then append both.\<close>

definition flush :: "parser_state \<Rightarrow> parser_state" where
  "flush st =
     (case current_id st of
        None \<Rightarrow> st
      | Some i \<Rightarrow>
          if i \<noteq> [] \<and> current_sequence st \<noteq> []
          then st\<lparr>ids := ids st @ [i], sequences := sequences st @ [current_sequence st]\<rparr>
          else st)"

definition parse_line :: "parser_state \<Rightarrow> string \<Rightarrow> parser_state" where
  "parse_line st raw =
     (let line = strip raw
      in if startswith_marker line
         then (flush st)\<lparr>current_id := Some (tl line), current_sequence := []\<rparr>
         else st\<lparr>current_sequence := current_sequence st @ line\<rparr>)"

fun parse_loop :: "parser_state \<Rightarrow> string list \<Rightarrow> parser_state" where
  "parse_loop st [] = st"
| "parse_loop st (raw # rest) = parse_loop (parse_line st raw) rest"

definition parse_text :: "string \<Rightarrow> string list \<times> string list" where
  "parse_text content =
     (let st = flush (parse_loop initial_state (file_lines content))
      in (ids st, sequences st))"

section \<open>Files, console output and failures\<close>

text \<open>
  The file system maps a path to what is stored there: a text file with its decoded
  content, a file whose bytes are not valid UTF-8, or a directory. Console output is the
  list of printed notices. \<open>write_budget\<close> is the number of \<^verbatim>\<open>file.write\<close> calls the
  device still accepts (\<open>None\<close>: no limit); the call after the last accepted one raises
  \<^verbatim>\<open>OSError\<close>. Writes reach the file as they are issued. \<open>open_fault\<close> gives, for a path
  that the system refuses to open for writing for a reason that the file system above does
  not show (permissions, a name that is too long), the error that it raises.

  A path is the name of its node: the directory of a path is the text before its last
  \<^verbatim>\<open>/\<close>, and a node below a directory exists only when that directory is a node.
\<close>

datatype node = TextFile string | Undecodable | Directory

datatype notice =
    Deleted_existing string
  | Error_opening string error
  | ID_notice string
  | Length_notice nat
  | Not_found string
  | Error_occurred error

record world =
  files :: "string \<rightharpoonup> node"
  stdout :: "notice list"
  write_budget :: "nat option"
  open_fault :: "string \<rightharpoonup> error"

definition print :: "notice \<Rightarrow> world \<Rightarrow> world" where
  "print n w = w\<lparr>stdout := stdout w @ [n]\<rparr>"

definition exists :: "world \<Rightarrow> string \<Rightarrow> bool" where
  "exists w p = (files w p \<noteq> None)"

text \<open>\<^verbatim>\<open>open(p, 'r', encoding="utf-8")\<close> and reading all of it.\<close>

definition read_text :: "world \<Rightarrow> string \<Rightarrow> error + string" where
  "read_text w p =
     (case files w p of
        None \<Rightarrow> Inl FileNotFoundError
      | Some Directory \<Rightarrow> Inl IsADirectoryError
      | Some Undecodable \<Rightarrow> Inl UnicodeDecodeError
      | Some (TextFile c) \<Rightarrow> Inr c)"

text \<open>
  Path names. A leading \<^verbatim>\<open>./\<close> stands for the working directory and is dropped when a node
  is looked up; the working directory, its parent and the root are directories. Names that
  reach a node by another way (\<^verbatim>\<open>..\<close> inside a path, links) are outside this model.
\<close>

function drop_dot :: "string \<Rightarrow> string" where
  "drop_dot [] = []"
| "drop_dot [a] = [a]"
| "drop_dot (a # b # rest) =
     (if a = CHR ''.'' \<and> b = CHR ''/'' then drop_dot (dropWhile (\<lambda>c. c = CHR ''/'') rest)
      else a # b # rest)"
  by pat_completeness auto
termination
  by (relation "measure length") (auto simp: length_dropWhile_le less_Suc_eq_le intro: le_SucI)

definition rstrip_slash :: "string \<Rightarrow> string" where
  "rstrip_slash p = rev (dropWhile (\<lambda>c. c = CHR ''/'') (rev p))"

definition dir_of :: "string \<Rightarrow> string" where
  "dir_of q = rstrip_slash (rev (tl (dropWhile (\<lambda>c. c \<noteq> CHR ''/'') (rev q))))"

definition base_of :: "string \<Rightarrow> string" where
  "base_of q = rev (takeWhile (\<lambda>c. c \<noteq> CHR ''/'') (rev q))"

definition is_directory :: "world \<Rightarrow> string \<Rightarrow> bool" where
  "is_directory w x =
     (if drop_dot x = [] then True
      else if drop_dot x = ''.'' then True
      else if drop_dot x = ''..'' then True
      else files w (drop_dot x) = Some Directory)"

text \<open>The error on the way to the last part of a path: the directory that is to hold the
  file is missing, or is a file.\<close>

definition dir_error :: "world \<Rightarrow> string \<Rightarrow> error option" where
  "dir_error w q =
     (if CHR ''/'' \<in> set q
      then (if is_directory w (dir_of q) then None
            else if files w (drop_dot (dir_of q)) = None then Some FileNotFoundError
            else Some NotADirectoryError)
      else None)"

text \<open>
  \<^verbatim>\<open>open(p, 'w')\<close>. The interpreter refuses a path with a null character, and the system
  refuses the empty path. The directory that is to hold the file must be there: a missing
  one gives \<^verbatim>\<open>FileNotFoundError\<close>, a file in its place \<^verbatim>\<open>NotADirectoryError\<close>. A path that
  ends with \<^verbatim>\<open>/\<close>, whose last part is \<^verbatim>\<open>.\<close> or \<^verbatim>\<open>..\<close>, or that names a directory gives
  \<^verbatim>\<open>IsADirectoryError\<close>. Any other path is opened, and the file at it becomes empty.
\<close>

definition open_w :: "world \<Rightarrow> string \<Rightarrow> error + world" where
  "open_w w p =
     (if CHR 0x00 \<in> set p then Inl ValueError
      else if p = [] then Inl FileNotFoundError
      else (case open_fault w p of
              Some e \<Rightarrow> Inl e
            | None \<Rightarrow>
                (case dir_error w (rstrip_slash p) of
                   Some e \<Rightarrow> Inl e
                 | None \<Rightarrow>
                     if rstrip_slash p = p \<and> base_of p \<noteq> ''.'' \<and> base_of p \<noteq> ''..'' \<and>
                        files w (drop_dot p) \<noteq> Some Directory
                     then Inr (w\<lparr>files := (files w)(p \<mapsto> TextFile [])\<rparr>)
                     else Inl IsADirectoryError)))"

definition content_of :: "world \<Rightarrow> string \<Rightarrow> string" where
  "content_of w p = (case files w p of Some (TextFile c) \<Rightarrow> c | _ \<Rightarrow> [])"

text \<open>\<^verbatim>\<open>file.write(s)\<close> on the file opened at \<open>p\<close>; the failure leaves the world as it is.\<close>

definition file_write :: "string \<Rightarrow> string \<Rightarrow> world \<Rightarrow> (error + unit) \<times> world" where
  "file_write p s w =
     (case write_budget w of
        Some 0 \<Rightarrow> (Inl OSError, w)
      | b \<Rightarrow> (Inr (), w\<lparr>files := (files w)(p \<mapsto> TextFile (content_of w p @ s)),
                         write_budget := map_option (\<lambda>n. n - 1) b\<rparr>))"

text \<open>\<^verbatim>\<open>os.remove(p)\<close>.\<close>

definition os_remove :: "string \<Rightarrow> world \<Rightarrow> (error + unit) \<times> world" where
  "os_remove p w =
     (case files w p of
        None \<Rightarrow> (Inl FileNotFoundError, w)
      | Some Directory \<Rightarrow> (Inl IsADirectoryError, w)
      | Some _ \<Rightarrow> (Inr (), w\<lparr>files := (files w)(p := None)\<rparr>))"

text \<open>The exceptions that \<^verbatim>\<open>except (IOError, OSError)\<close> catches.\<close>

fun is_OSError :: "error \<Rightarrow> bool" where
  "is_OSError FileNotFoundError = True"
| "is_OSError IsADirectoryError = True"
| "is_OSError NotADirectoryError = True"
| "is_OSError OSError = True"
| "is_OSError _ = False"


section \<open>\<^verbatim>\<open>parse_fasta_file\<close>, \<^verbatim>\<open>validate_input\<close>, \<^verbatim>\<open>slice_sequence\<close>\<close>

definition parse_fasta_file :: "world \<Rightarrow> string \<Rightarrow> error + string list \<times> string list" where
  "parse_fasta_file w fasta_file =
     (case read_text w fasta_file of Inl e \<Rightarrow> Inl e | Inr content \<Rightarrow> Inr (parse_text content))"

text \<open>The identifier is typed as an optional string, so the \<^verbatim>\<open>isinstance\<close> test cannot fail.\<close>

definition validate_input :: "world \<Rightarrow> string \<Rightarrow> string option \<Rightarrow> error + unit" where
  "validate_input w fasta_file sequence_id =
     (if \<not> exists w fasta_file then Inl FileNotFoundError else Inr ())"

definition slice_sequence :: "string \<Rightarrow> int option \<Rightarrow> int option \<Rightarrow> error + string" where
  "slice_sequence sequence start end =
     (case (start, end) of
        (Some s, Some e) \<Rightarrow> if s > e then Inl ValueError else Inr (py_slice sequence s e)
      | _ \<Rightarrow> Inr sequence)"


section \<open>The writers\<close>

text \<open>\<^verbatim>\<open>[id.split()[i] for i in columns]\<close> of \<^verbatim>\<open>save_sequences_to_file\<close>: plain indexing.\<close>

fun project_strict :: "string list \<Rightarrow> int list \<Rightarrow> error + string list" where
  "project_strict parts [] = Inr []"
| "project_strict parts (i # rest) =
     (case py_index parts i of
        Inl e \<Rightarrow> Inl e
      | Inr f \<Rightarrow> (case project_strict parts rest of Inl e \<Rightarrow> Inl e | Inr fs \<Rightarrow> Inr (f # fs)))"

text \<open>\<^verbatim>\<open>[columns_to_write[i] if i < len(columns_to_write) else "" for i in columns]\<close> of
  \<^verbatim>\<open>save_ids_to_file\<close>.\<close>

fun project_lenient :: "string list \<Rightarrow> int list \<Rightarrow> error + string list" where
  "project_lenient parts [] = Inr []"
| "project_lenient parts (i # rest) =
     (case (if i < int (length parts) then py_index parts i else Inr []) of
        Inl e \<Rightarrow> Inl e
      | Inr f \<Rightarrow> (case project_lenient parts rest of Inl e \<Rightarrow> Inl e | Inr fs \<Rightarrow> Inr (f # fs)))"

text \<open>One round of the loop of \<^verbatim>\<open>save_sequences_to_file\<close> over \<^verbatim>\<open>zip(ids, sequences)\<close>.\<close>

definition write_record ::
  "string \<Rightarrow> string \<Rightarrow> int list option \<Rightarrow> bool \<Rightarrow> string \<times> string \<Rightarrow> world
     \<Rightarrow> (error + unit) \<times> world" where
  "write_record p delimiter columns write_sequence r w =
     (case r of (ident, sequence) \<Rightarrow>
        if write_sequence then
          (case columns of
             Some (c # cs) \<Rightarrow>
               (case project_strict (split ident) (c # cs) of
                  Inl e \<Rightarrow> (Inl e, w)
                | Inr columns_to_write \<Rightarrow>
                    (case file_write p (join delimiter columns_to_write @ ''\<newline>'') w of
                       (Inl e, w') \<Rightarrow> (Inl e, w')
                     | (Inr _, w') \<Rightarrow> file_write p (sequence @ ''\<newline>'') w'))
           | _ \<Rightarrow> file_write p (ident @ ''\<newline>'' @ sequence @ ''\<newline>'') w)
        else file_write p (ident @ ''\<newline>'') w)"

fun write_records ::
  "string \<Rightarrow> string \<Rightarrow> int list option \<Rightarrow> bool \<Rightarrow> (string \<times> string) list \<Rightarrow> world
     \<Rightarrow> (error + unit) \<times> world" where
  "write_records p delimiter columns write_sequence [] w = (Inr (), w)"
| "write_records p delimiter columns write_sequence (r # rs) w =
     (case write_record p delimiter columns write_sequence r w of
        (Inl e, w') \<Rightarrow> (Inl e, w')
      | (Inr _, w') \<Rightarrow> write_records p delimiter columns write_sequence rs w')"

definition save_sequences_to_file ::
  "string list \<Rightarrow> string list \<Rightarrow> string option \<Rightarrow> string \<Rightarrow> int list option \<Rightarrow> bool \<Rightarrow> world
     \<Rightarrow> (error + unit) \<times> world" where
  "save_sequences_to_file id_list sequence_list id_output_file delimiter columns write_sequence w =
     (case id_output_file of
        None \<Rightarrow> (Inr (), w)
      | Some p \<Rightarrow>
          (case open_w w p of
             Inl e \<Rightarrow> (Inl e, w)
           | Inr w1 \<Rightarrow>
               write_records p delimiter columns write_sequence (zip id_list sequence_list) w1))"

text \<open>One round of the loop of \<^verbatim>\<open>save_ids_to_file\<close> over \<^verbatim>\<open>enumerate(ids)\<close>.\<close>

definition write_id_row ::
  "string \<Rightarrow> string \<Rightarrow> int list option \<Rightarrow> string list option \<Rightarrow> nat \<times> string \<Rightarrow> world
     \<Rightarrow> (error + unit) \<times> world" where
  "write_id_row p delimiter columns sequence_list r w =
     (case r of (index, id_str) \<Rightarrow>
        (case (case columns of None \<Rightarrow> Inr (split id_str)
                              | Some cs \<Rightarrow> project_lenient (split id_str) cs) of
           Inl e \<Rightarrow> (Inl e, w)
         | Inr columns_to_write \<Rightarrow>
             (case file_write p (join delimiter columns_to_write @ ''\<newline>'') w of
                (Inl e, w') \<Rightarrow> (Inl e, w')
              | (Inr _, w') \<Rightarrow>
                  (case sequence_list of
                     Some (s # ss) \<Rightarrow>
                       (case py_index (s # ss) (int index) of
                          Inl e \<Rightarrow> (Inl e, w')
                        | Inr sq \<Rightarrow>
                            if sq \<noteq> [] then file_write p (sq @ ''\<newline>'') w' else (Inr (), w'))
                   | _ \<Rightarrow> (Inr (), w')))))"

fun write_id_rows ::
  "string \<Rightarrow> string \<Rightarrow> int list option \<Rightarrow> string list option \<Rightarrow> (nat \<times> string) list \<Rightarrow> world
     \<Rightarrow> (error + unit) \<times> world" where
  "write_id_rows p delimiter columns sequence_list [] w = (Inr (), w)"
| "write_id_rows p delimiter columns sequence_list (r # rs) w =
     (case write_id_row p delimiter columns sequence_list r w of
        (Inl e, w') \<Rightarrow> (Inl e, w')
      | (Inr _, w') \<Rightarrow> write_id_rows p delimiter columns sequence_list rs w')"

text \<open>The \<^verbatim>\<open>try\<close> block of \<^verbatim>\<open>save_ids_to_file\<close>.\<close>

definition save_ids_try ::
  "string list \<Rightarrow> string \<Rightarrow> string \<Rightarrow> int list option \<Rightarrow> string list option \<Rightarrow> world
     \<Rightarrow> (error + unit) \<times> world" where
  "save_ids_try id_list filename delimiter columns sequence_list w =
     (case (if exists w filename
            then (case os_remove filename w of
                    (Inl e, w') \<Rightarrow> (Inl e, w')
                  | (Inr _, w') \<Rightarrow> (Inr (), print (Deleted_existing filename) w'))
            else (Inr (), w)) of
        (Inl e, w1) \<Rightarrow> (Inl e, w1)
      | (Inr _, w1) \<Rightarrow>
          (case open_w w1 filename of
             Inl e \<Rightarrow> (Inl e, w1)
           | Inr w2 \<Rightarrow>
               write_id_rows filename delimiter columns sequence_list
                 (zip [0 ..< length id_list] id_list) w2))"

definition save_ids_to_file ::
  "string list \<Rightarrow> string \<Rightarrow> string \<Rightarrow> int list option \<Rightarrow> string list option \<Rightarrow> world
     \<Rightarrow> (error + unit) \<times> world" where
  "save_ids_to_file id_list filename delimiter columns sequence_list w =
     (if id_list = [] then (Inl ValueError, w)
      else if filename = [] then (Inl ValueError, w)
      else if (case columns of None \<Rightarrow> False | Some cs \<Rightarrow> list_ex (\<lambda>i. i < 0) cs)
      then (Inl ValueError, w)
      else (case save_ids_try id_list filename delimiter columns sequence_list w of
              (Inl e, w') \<Rightarrow>
                if is_OSError e then os_remove filename (print (Error_opening filename e) w')
                else (Inl e, w')
            | (Inr u, w') \<Rightarrow> (Inr u, w')))"


section \<open>\<^verbatim>\<open>get_sequence_by_id\<close>\<close>

text \<open>The search loop: \<open>target_sequence\<close> starts empty and takes the slice of the first
  record whose identifier is equal to \<open>sequence_id\<close>.\<close>

fun find_target ::
  "(string \<times> string) list \<Rightarrow> string \<Rightarrow> int option \<Rightarrow> int option \<Rightarrow> error + string" where
  "find_target [] sequence_id start end = Inr []"
| "find_target ((ident, sequence) # rest) sequence_id start end =
     (if ident = sequence_id then slice_sequence sequence start end
      else find_target rest sequence_id start end)"

text \<open>The body of the \<^verbatim>\<open>try\<close> block; \<^verbatim>\<open>if sequence_id:\<close> holds for a non-empty string only.\<close>

definition guarded_block ::
  "string list \<Rightarrow> string list \<Rightarrow> string option \<Rightarrow> int option \<Rightarrow> int option \<Rightarrow> string option
     \<Rightarrow> string \<Rightarrow> int list option \<Rightarrow> bool \<Rightarrow> world \<Rightarrow> (error + unit) \<times> world" where
  "guarded_block all_ids all_sequences sequence_id start end id_output_file delimiter columns
       write_sequence w =
     (case sequence_id of
        Some (c # cs) \<Rightarrow>
          (case find_target (zip all_ids all_sequences) (c # cs) start end of
             Inl e \<Rightarrow> (Inl e, w)
           | Inr target_sequence \<Rightarrow>
               if target_sequence \<noteq> [] then
                 (let w1 = print (ID_notice (c # cs)) w;
                      w2 = (if write_sequence
                            then print (Length_notice (length target_sequence)) w1 else w1)
                  in save_sequences_to_file [c # cs] [target_sequence] id_output_file delimiter
                       columns write_sequence w2)
               else (Inr (), print (Not_found (c # cs)) w))
      | _ \<Rightarrow>
          save_sequences_to_file all_ids all_sequences id_output_file delimiter columns
            write_sequence w)"

definition get_sequence_by_id ::
  "string \<Rightarrow> string option \<Rightarrow> int option \<Rightarrow> int option \<Rightarrow> string option \<Rightarrow> string
     \<Rightarrow> int list option \<Rightarrow> bool \<Rightarrow> world \<Rightarrow> (error + unit) \<times> world" where
  "get_sequence_by_id fasta_file sequence_id start end id_output_file delimiter columns
       write_sequence w =
     (case validate_input w fasta_file sequence_id of
        Inl e \<Rightarrow> (Inl e, w)
      | Inr _ \<Rightarrow>
          (let columns' = (if columns = Some [] then None else columns)
           in case parse_fasta_file w fasta_file of
                Inl e \<Rightarrow> (Inl e, w)
              | Inr (all_ids, all_sequences) \<Rightarrow>
                  (case guarded_block all_ids all_sequences sequence_id start end id_output_file
                          delimiter columns' write_sequence w of
                     (Inl e, w') \<Rightarrow> (Inr (), print (Error_occurred e) w')
                   | (Inr u, w') \<Rightarrow> (Inr u, w'))))"


section \<open>Reference definitions for the properties\<close>

text \<open>
  A header is a line whose stripped text starts with the marker. The lines of a file are
  grouped into records: each header with the lines that follow it up to the next header.
  Lines before the first header belong to no record.
\<close>

definition is_header :: "string \<Rightarrow> bool" where
  "is_header raw = startswith_marker (strip raw)"

fun record_groups :: "string list \<Rightarrow> (string \<times> string list) list" where
  "record_groups [] = []"
| "record_groups (l # ls) =
     (if is_header l then (l, takeWhile (\<lambda>x. \<not> is_header x) ls) # record_groups ls
      else record_groups ls)"

definition joined_body :: "string list \<Rightarrow> string" where
  "joined_body body = concat (map strip body)"

text \<open>The records in the wording of the specification: the identifier is the text after
  the marker, stripped on both sides.\<close>

definition text_after_marker :: "string \<Rightarrow> string" where
  "text_after_marker raw = tl (dropWhile (\<lambda>c. c \<noteq> CHR ''>'') raw)"

definition claimed_records :: "string \<Rightarrow> (string \<times> string) list" where
  "claimed_records content =
     map (\<lambda>(h, body). (strip (text_after_marker h), joined_body body))
       (record_groups (file_lines content))"

text \<open>The records as the parser builds them: the identifier is the stripped header line
  without its first character, and a record is kept when both parts are non-empty.\<close>

definition complete :: "string \<times> string \<Rightarrow> bool" where
  "complete r = (fst r \<noteq> [] \<and> snd r \<noteq> [])"

definition tail_records :: "string list \<Rightarrow> (string \<times> string) list" where
  "tail_records ls =
     filter complete (map (\<lambda>(h, body). (tl (strip h), joined_body body)) (record_groups ls))"

definition fasta_records :: "string \<Rightarrow> (string \<times> string) list" where
  "fasta_records content = tail_records (file_lines content)"

definition pending :: "string option \<Rightarrow> string \<Rightarrow> (string \<times> string) list" where
  "pending cid cseq = (case cid of None \<Rightarrow> [] | Some i \<Rightarrow> filter complete [(i, cseq)])"

definition records_ok :: "parser_state \<Rightarrow> bool" where
  "records_ok st =
     (length (ids st) = length (sequences st) \<and> [] \<notin> set (ids st) \<and> [] \<notin> set (sequences st))"

text \<open>A world that holds one input file and nothing else.\<close>

definition single_file :: "string \<Rightarrow> string \<Rightarrow> world" where
  "single_file p c = \<lparr>files = [p \<mapsto> TextFile c], stdout = [], write_budget = None, open_fault = Map.empty\<rparr>"

text \<open>
  The position a slice bound stands for in a text of length \<open>n\<close>: a negative bound counts
  from the end, and what is still outside the text is moved to its nearest end.
\<close>

definition resolve :: "nat \<Rightarrow> int \<Rightarrow> nat" where
  "resolve n i = (if i < 0 then nat (max 0 (int n + i)) else min n (nat i))"

text \<open>The slice in the wording of the specification: a negative bound is out of bounds
  and is clamped, as an overflowing one is.\<close>

definition clamp :: "nat \<Rightarrow> int \<Rightarrow> nat" where
  "clamp n i = (if i < 0 then 0 else if int n < i then n else nat i)"

definition clamped_slice :: "string \<Rightarrow> int \<Rightarrow> int \<Rightarrow> string" where
  "clamped_slice s start end =
     take (clamp (length s) end - clamp (length s) start) (drop (clamp (length s) start) s)"

text \<open>The tab character, the default delimiter.\<close>

definition tab :: string where
  "tab = [CHR 0x09]"

text \<open>\<^verbatim>\<open>get_sequence_by_id\<close> turns an empty column list into an absent one.\<close>

definition normalized :: "int list option \<Rightarrow> int list option" where
  "normalized columns = (if columns = Some [] then None else columns)"

text \<open>The text that the writer produces for a list of records when no columns are chosen
  and sequences are written: the identifier line and the sequence line of each record.\<close>

definition plain_lines :: "(string \<times> string) list \<Rightarrow> string" where
  "plain_lines recs = concat (map (\<lambda>(i, s). i @ ''\<newline>'' @ s @ ''\<newline>'') recs)"

definition with_marker :: "string \<Rightarrow> string" where
  "with_marker i = CHR ''>'' # i"

text \<open>What holds of the identifiers and sequences that the parser returns: they contain
  no line terminator, an identifier does not end with whitespace, and a sequence neither
  starts nor ends with whitespace and does not start with the marker.\<close>

definition one_line :: "string \<Rightarrow> bool" where
  "one_line s = (CHR 0x0A \<notin> set s \<and> CHR 0x0D \<notin> set s)"

definition trimmed :: "string \<Rightarrow> bool" where
  "trimmed s = (s = [] \<or> (\<not> isspace (hd s) \<and> \<not> isspace (last s)))"

definition id_ok :: "string \<Rightarrow> bool" where
  "id_ok i = (i \<noteq> [] \<and> one_line i \<and> \<not> isspace (last i))"

definition seq_ok :: "string \<Rightarrow> bool" where
  "seq_ok s = (s \<noteq> [] \<and> one_line s \<and> trimmed s \<and> \<not> startswith_marker s)"

definition tidy :: "parser_state \<Rightarrow> bool" where
  "tidy st =
     (list_all id_ok (ids st) \<and> list_all seq_ok (sequences st) \<and>
      (case current_id st of None \<Rightarrow> True | Some i \<Rightarrow> i = [] \<or> id_ok i) \<and>
      one_line (current_sequence st) \<and> trimmed (current_sequence st) \<and>
      \<not> startswith_marker (current_sequence st))"


section \<open>Properties of the parser\<close>

lemmas eval_defs =
  parse_fasta_file_def read_text_def parse_text_def file_lines_def parse_line_def flush_def
  initial_state_def strip_def isspace_def whitespace_def startswith_marker_def single_file_def

lemma parse_fasta_file_text:
  "files w f = Some (TextFile c) \<Longrightarrow> parse_fasta_file w f = Inr (parse_text c)"
  by (simp add: parse_fasta_file_def read_text_def)

subsection \<open>Every record is complete\<close>

lemma records_ok_flush: "records_ok st \<Longrightarrow> records_ok (flush st)"
  by (auto simp: records_ok_def flush_def split: option.splits)

lemma records_ok_parse_line: "records_ok st \<Longrightarrow> records_ok (parse_line st raw)"
  using records_ok_flush [of st] by (simp add: parse_line_def Let_def records_ok_def)

lemma records_ok_parse_loop: "records_ok st \<Longrightarrow> records_ok (parse_loop st ls)"
  by (induction ls arbitrary: st) (simp_all add: records_ok_parse_line)

lemma records_ok_parse_text:
  "length (fst (parse_text c)) = length (snd (parse_text c)) \<and>
   [] \<notin> set (fst (parse_text c)) \<and> [] \<notin> set (snd (parse_text c))"
proof -
  have "records_ok initial_state"
    by (simp add: records_ok_def initial_state_def)
  then have "records_ok (flush (parse_loop initial_state (file_lines c)))"
    by (intro records_ok_flush records_ok_parse_loop)
  then show ?thesis
    by (simp add: parse_text_def Let_def records_ok_def)
qed

lemma parse_loop_append: "parse_loop st (xs @ ys) = parse_loop (parse_loop st xs) ys"
  by (induction xs arbitrary: st) simp_all

lemma flush_idem_empty: "current_sequence st = [] \<Longrightarrow> flush st = st"
  by (simp add: flush_def split: option.splits)

lemma header_after_header:
  assumes "is_header h1" "is_header h2"
  shows "parse_line (parse_line st h1) h2 = parse_line st h2"
  using assms by (simp add: parse_line_def is_header_def Let_def flush_idem_empty)

text \<open>
  C8. Every record that \<^verbatim>\<open>parse_fasta_file\<close> returns has a non-empty identifier and a
  non-empty sequence (and the two result lists have the same length). A header line that
  is immediately followed by another header line yields no record: the result is the
  result for the file without the first of the two headers. In particular the content
  \<^verbatim>\<open>">a\n>b\nAA\n"\<close> is parsed to the single record \<^verbatim>\<open>("b", "AA")\<close>.
\<close>

theorem parser_records_nonempty:
  "(files w f = Some (TextFile c) \<longrightarrow>
      (\<exists>is ss. parse_fasta_file w f = Inr (is, ss) \<and> length is = length ss \<and>
         (\<forall>k < length is. is ! k \<noteq> [] \<and> ss ! k \<noteq> []))) \<and>
   (files w f = Some (TextFile c) \<and> files w' f' = Some (TextFile c') \<and>
    is_header h1 \<and> is_header h2 \<and>
    file_lines c = before @ [h1, h2] @ after \<and> file_lines c' = before @ [h2] @ after \<longrightarrow>
      parse_fasta_file w f = parse_fasta_file w' f') \<and>
   parse_fasta_file (single_file ''in.fa'' ''>a\<newline>>b\<newline>AA\<newline>'') ''in.fa''
     = Inr ([''b''], [''AA''])"
proof (intro conjI impI)
  assume f: "files w f = Some (TextFile c)"
  have ok: "length (fst (parse_text c)) = length (snd (parse_text c)) \<and>
   [] \<notin> set (fst (parse_text c)) \<and> [] \<notin> set (snd (parse_text c))"
    by (rule records_ok_parse_text)
  have "\<forall>k < length (fst (parse_text c)).
          fst (parse_text c) ! k \<noteq> [] \<and> snd (parse_text c) ! k \<noteq> []"
    using ok by (metis nth_mem)
  with ok show "\<exists>is ss. parse_fasta_file w f = Inr (is, ss) \<and> length is = length ss \<and>
         (\<forall>k < length is. is ! k \<noteq> [] \<and> ss ! k \<noteq> [])"
    using parse_fasta_file_text [OF f] by (cases "parse_text c") auto
next
  assume a: "files w f = Some (TextFile c) \<and> files w' f' = Some (TextFile c') \<and>
    is_header h1 \<and> is_header h2 \<and>
    file_lines c = before @ [h1, h2] @ after \<and> file_lines c' = before @ [h2] @ after"
  then have "parse_loop initial_state (file_lines c) = parse_loop initial_state (file_lines c')"
    by (simp add: parse_loop_append header_after_header)
  then have "parse_text c = parse_text c'"
    by (simp add: parse_text_def)
  with a show "parse_fasta_file w f = parse_fasta_file w' f'"
    by (simp add: parse_fasta_file_text)
next
  show "parse_fasta_file (single_file ''in.fa'' ''>a\<newline>>b\<newline>AA\<newline>'') ''in.fa''
     = Inr ([''b''], [''AA''])"
    by (simp add: eval_defs)
qed

theorem parser_records_nonempty_witness:
  "files (single_file ''in.fa'' ''>a\<newline>>b\<newline>AA\<newline>'') ''in.fa''
     = Some (TextFile ''>a\<newline>>b\<newline>AA\<newline>'') \<and>
   files (single_file ''two.fa'' ''>b\<newline>AA\<newline>'') ''two.fa'' = Some (TextFile ''>b\<newline>AA\<newline>'') \<and>
   is_header ''>a\<newline>'' \<and> is_header ''>b\<newline>'' \<and>
   file_lines ''>a\<newline>>b\<newline>AA\<newline>'' = [] @ [''>a\<newline>'', ''>b\<newline>''] @ [''AA\<newline>''] \<and>
   file_lines ''>b\<newline>AA\<newline>'' = [] @ [''>b\<newline>''] @ [''AA\<newline>''] \<and>
   (\<exists>is ss. parse_fasta_file (single_file ''in.fa'' ''>a\<newline>>b\<newline>AA\<newline>'') ''in.fa'' = Inr (is, ss) \<and>
      length is = length ss \<and> (\<forall>k < length is. is ! k \<noteq> [] \<and> ss ! k \<noteq> [])) \<and>
   parse_fasta_file (single_file ''in.fa'' ''>a\<newline>>b\<newline>AA\<newline>'') ''in.fa''
     = parse_fasta_file (single_file ''two.fa'' ''>b\<newline>AA\<newline>'') ''two.fa''"
proof -
  let ?c = "''>a\<newline>>b\<newline>AA\<newline>''" and ?c' = "''>b\<newline>AA\<newline>''"
  let ?w = "single_file ''in.fa'' ?c" and ?w' = "single_file ''two.fa'' ?c'"
  have 1: "files ?w ''in.fa'' = Some (TextFile ?c)" by (simp add: single_file_def)
  have 2: "files ?w' ''two.fa'' = Some (TextFile ?c')" by (simp add: single_file_def)
  have 3: "is_header ''>a\<newline>''" "is_header ''>b\<newline>''"
    by (simp_all add: is_header_def strip_def isspace_def whitespace_def startswith_marker_def)
  have 4: "file_lines ?c = [] @ [''>a\<newline>'', ''>b\<newline>''] @ [''AA\<newline>'']"
    "file_lines ?c' = [] @ [''>b\<newline>''] @ [''AA\<newline>'']"
    by (simp_all add: file_lines_def)
  from parser_records_nonempty [of ?w "''in.fa''" ?c ?w' "''two.fa''" ?c'
      "''>a\<newline>''" "''>b\<newline>''" "[]" "[''AA\<newline>'']"] 1 2 3 4
  show ?thesis by blast
qed

subsection \<open>The loop computes the records of the file\<close>

lemma flush_fields:
  "ids (flush st) = ids st @ map fst (pending (current_id st) (current_sequence st))"
  "sequences (flush st) = sequences st @ map snd (pending (current_id st) (current_sequence st))"
  by (simp_all add: flush_def pending_def complete_def split: option.splits)

lemma parse_line_header:
  "is_header raw \<Longrightarrow>
     parse_line st raw = (flush st)\<lparr>current_id := Some (tl (strip raw)), current_sequence := []\<rparr>"
  by (simp add: parse_line_def is_header_def)

lemma parse_line_body:
  "\<not> is_header raw \<Longrightarrow>
     parse_line st raw = st\<lparr>current_sequence := current_sequence st @ strip raw\<rparr>"
  by (simp add: parse_line_def is_header_def)

lemma tail_records_simps:
  "tail_records [] = []"
  "is_header l \<Longrightarrow> tail_records (l # ls) =
     pending (Some (tl (strip l))) (joined_body (takeWhile (\<lambda>x. \<not> is_header x) ls))
       @ tail_records ls"
  "\<not> is_header l \<Longrightarrow> tail_records (l # ls) = tail_records ls"
  by (simp_all add: tail_records_def pending_def)

lemma loop_ids:
  "ids (flush (parse_loop st ls)) =
     ids st @ map fst (pending (current_id st)
                        (current_sequence st @ joined_body (takeWhile (\<lambda>x. \<not> is_header x) ls))
                      @ tail_records ls)"
proof (induction ls arbitrary: st)
  case Nil
  then show ?case by (simp add: flush_fields joined_body_def tail_records_simps)
next
  case (Cons l ls)
  have "ids (flush (parse_loop st (l # ls))) = ids (flush (parse_loop (parse_line st l) ls))"
    by simp
  also have "\<dots> = ids (parse_line st l) @ map fst (pending (current_id (parse_line st l))
       (current_sequence (parse_line st l) @ joined_body (takeWhile (\<lambda>x. \<not> is_header x) ls))
       @ tail_records ls)"
    by (rule Cons.IH)
  also have "\<dots> = ids st @ map fst (pending (current_id st)
       (current_sequence st @ joined_body (takeWhile (\<lambda>x. \<not> is_header x) (l # ls)))
       @ tail_records (l # ls))"
  proof (cases "is_header l")
    case True
    then show ?thesis
      by (simp add: parse_line_header flush_fields tail_records_simps joined_body_def)
  next
    case False
    then show ?thesis
      by (simp add: parse_line_body tail_records_simps joined_body_def)
  qed
  finally show ?case .
qed

lemma loop_sequences:
  "sequences (flush (parse_loop st ls)) =
     sequences st @ map snd (pending (current_id st)
                        (current_sequence st @ joined_body (takeWhile (\<lambda>x. \<not> is_header x) ls))
                      @ tail_records ls)"
proof (induction ls arbitrary: st)
  case Nil
  then show ?case by (simp add: flush_fields joined_body_def tail_records_simps)
next
  case (Cons l ls)
  have "sequences (flush (parse_loop st (l # ls))) = sequences (flush (parse_loop (parse_line st l) ls))"
    by simp
  also have "\<dots> = sequences (parse_line st l) @ map snd (pending (current_id (parse_line st l))
       (current_sequence (parse_line st l) @ joined_body (takeWhile (\<lambda>x. \<not> is_header x) ls))
       @ tail_records ls)"
    by (rule Cons.IH)
  also have "\<dots> = sequences st @ map snd (pending (current_id st)
       (current_sequence st @ joined_body (takeWhile (\<lambda>x. \<not> is_header x) (l # ls)))
       @ tail_records (l # ls))"
  proof (cases "is_header l")
    case True
    then show ?thesis
      by (simp add: parse_line_header flush_fields tail_records_simps joined_body_def)
  next
    case False
    then show ?thesis
      by (simp add: parse_line_body tail_records_simps joined_body_def)
  qed
  finally show ?case .
qed

lemma parse_text_records:
  "parse_text c = (map fst (fasta_records c), map snd (fasta_records c))"
  by (simp add: parse_text_def Let_def loop_ids loop_sequences initial_state_def pending_def
      fasta_records_def)

text \<open>
  C1 (amended). For every readable input file, \<^verbatim>\<open>parse_fasta_file\<close> returns, in file
  order, the records of the file that have a non-empty identifier and a non-empty
  sequence. The identifier is the whitespace-stripped header line without its first
  character, the marker: whitespace at the end of the line is removed, whitespace between
  the marker and the text is kept. The sequence is the concatenation, without separator,
  of the whitespace-stripped lines between the header and the next header or the end of
  the file. In particular the content \<^verbatim>\<open>">a\nAC\nGT\n>b\nTT\n"\<close> is parsed to the records
  \<^verbatim>\<open>("a", "ACGT")\<close> and \<^verbatim>\<open>("b", "TT")\<close>.
\<close>

theorem parse_fasta_file_records:
  "(files w f = Some (TextFile c) \<longrightarrow>
      parse_fasta_file w f = Inr (map fst (fasta_records c), map snd (fasta_records c))) \<and>
   parse_fasta_file (single_file ''in.fa'' ''>a\<newline>AC\<newline>GT\<newline>>b\<newline>TT\<newline>'') ''in.fa''
     = Inr ([''a'', ''b''], [''ACGT'', ''TT''])"
proof (intro conjI impI)
  assume "files w f = Some (TextFile c)"
  then show "parse_fasta_file w f = Inr (map fst (fasta_records c), map snd (fasta_records c))"
    by (simp add: parse_fasta_file_def read_text_def parse_text_records)
next
  show "parse_fasta_file (single_file ''in.fa'' ''>a\<newline>AC\<newline>GT\<newline>>b\<newline>TT\<newline>'') ''in.fa''
     = Inr ([''a'', ''b''], [''ACGT'', ''TT''])"
    by (simp add: eval_defs)
qed

theorem parse_fasta_file_records_witness:
  "files (single_file ''in.fa'' ''> a\<newline>AC\<newline>>b\<newline>>c\<newline>TT'') ''in.fa''
     = Some (TextFile ''> a\<newline>AC\<newline>>b\<newline>>c\<newline>TT'') \<and>
   fasta_records ''> a\<newline>AC\<newline>>b\<newline>>c\<newline>TT'' = [('' a'', ''AC''), (''c'', ''TT'')] \<and>
   parse_fasta_file (single_file ''in.fa'' ''> a\<newline>AC\<newline>>b\<newline>>c\<newline>TT'') ''in.fa''
     = Inr (['' a'', ''c''], [''AC'', ''TT''])"
proof -
  let ?c = "''> a\<newline>AC\<newline>>b\<newline>>c\<newline>TT''"
  let ?w = "single_file ''in.fa'' ?c"
  have 1: "files ?w ''in.fa'' = Some (TextFile ?c)" by (simp add: single_file_def)
  have 2: "fasta_records ?c = [('' a'', ''AC''), (''c'', ''TT'')]"
    by (simp add: fasta_records_def tail_records_def file_lines_def is_header_def joined_body_def
        complete_def strip_def isspace_def whitespace_def startswith_marker_def)
  from parse_fasta_file_records [of ?w "''in.fa''" ?c] 1 2 show ?thesis by simp
qed

text \<open>
  The claim as the specification words it fails for the header \<^verbatim>\<open>"> a"\<close>: the claimed
  identifier is \<^verbatim>\<open>"a"\<close>, the parser returns \<^verbatim>\<open>" a"\<close>.
\<close>

theorem identifier_not_stripped_counterexample:
  "parse_fasta_file (single_file ''in.fa'' ''> a\<newline>AC\<newline>'') ''in.fa'' = Inr (['' a''], [''AC'']) \<and>
   claimed_records ''> a\<newline>AC\<newline>'' = [(''a'', ''AC'')] \<and>
   parse_fasta_file (single_file ''in.fa'' ''> a\<newline>AC\<newline>'') ''in.fa''
     \<noteq> Inr (map fst (claimed_records ''> a\<newline>AC\<newline>''), map snd (claimed_records ''> a\<newline>AC\<newline>''))"
  by (simp add: eval_defs claimed_records_def text_after_marker_def is_header_def joined_body_def)


section \<open>Properties of the slicer\<close>

lemma adjust_index_resolve: "adjust_index n i = resolve n i"
  by (auto simp: adjust_index_def resolve_def add.commute)

lemma adjust_index_le: "adjust_index n i \<le> n"
  by (auto simp: adjust_index_def)

lemma map_nth_upt: "b \<le> length xs \<Longrightarrow> map (\<lambda>k. xs ! k) [a..<b] = take (b - a) (drop a xs)"
  by (rule nth_equalityI) auto

lemma py_slice_take_drop:
  "py_slice xs start stop =
     take (resolve (length xs) stop - resolve (length xs) start)
       (drop (resolve (length xs) start) xs)"
  using adjust_index_le [of "length xs" stop]
  by (simp add: py_slice_def Let_def map_nth_upt adjust_index_resolve)

text \<open>
  C2 (amended). For every sequence and integers \<open>start\<close>, \<open>end\<close>: \<^verbatim>\<open>slice_sequence\<close> raises
  \<^verbatim>\<open>ValueError\<close> when \<open>start > end\<close>; otherwise it returns the substring from the position
  of \<open>start\<close> (inclusive) to the position of \<open>end\<close> (exclusive), where a negative bound
  counts from the end of the sequence and only a position that is still outside the
  sequence is clamped. For non-negative bounds this is the text from index \<open>start\<close> to
  index \<open>end\<close>, an overflowing bound being truncated silently. Whenever a bound is absent,
  the sequence is returned unchanged.
\<close>

theorem slice_sequence_bounds:
  "(end < start \<longrightarrow> slice_sequence s (Some start) (Some end) = Inl ValueError) \<and>
   (start \<le> end \<longrightarrow>
      slice_sequence s (Some start) (Some end) =
        Inr (take (resolve (length s) end - resolve (length s) start)
               (drop (resolve (length s) start) s))) \<and>
   (0 \<le> start \<and> start \<le> end \<longrightarrow>
      slice_sequence s (Some start) (Some end) = Inr (take (nat end - nat start) (drop (nat start) s))) \<and>
   (start \<le> end \<and> end < 0 \<and> - int (length s) \<le> start \<longrightarrow>
      slice_sequence s (Some start) (Some end) =
        Inr (take (nat (end - start)) (drop (nat (int (length s) + start)) s))) \<and>
   slice_sequence s None bound = Inr s \<and> slice_sequence s bound None = Inr s"
proof (intro conjI impI)
  show "slice_sequence s None bound = Inr s" "slice_sequence s bound None = Inr s"
    by (simp_all add: slice_sequence_def split: option.splits)
next
  assume "end < start"
  then show "slice_sequence s (Some start) (Some end) = Inl ValueError"
    by (simp add: slice_sequence_def)
next
  assume "start \<le> end"
  then show "slice_sequence s (Some start) (Some end) =
        Inr (take (resolve (length s) end - resolve (length s) start)
               (drop (resolve (length s) start) s))"
    by (simp add: slice_sequence_def py_slice_take_drop)
next
  assume a: "0 \<le> start \<and> start \<le> end"
  then have "slice_sequence s (Some start) (Some end) =
        Inr (take (resolve (length s) end - resolve (length s) start)
               (drop (resolve (length s) start) s))"
    by (simp add: slice_sequence_def py_slice_take_drop)
  also have "take (resolve (length s) end - resolve (length s) start)
               (drop (resolve (length s) start) s) = take (nat end - nat start) (drop (nat start) s)"
    using a by (auto simp: resolve_def min_def)
  finally show "slice_sequence s (Some start) (Some end) = Inr (take (nat end - nat start) (drop (nat start) s))" .
next
  assume a: "start \<le> end \<and> end < 0 \<and> - int (length s) \<le> start"
  then have "slice_sequence s (Some start) (Some end) =
        Inr (take (resolve (length s) end - resolve (length s) start)
               (drop (resolve (length s) start) s))"
    by (simp add: slice_sequence_def py_slice_take_drop)
  also have "resolve (length s) end - resolve (length s) start = nat (end - start)"
    using a by (simp add: resolve_def max_def) linarith
  also have "resolve (length s) start = nat (int (length s) + start)"
    using a by (simp add: resolve_def max_def)
  finally show "slice_sequence s (Some start) (Some end) =
        Inr (take (nat (end - start)) (drop (nat (int (length s) + start)) s))" .
qed

theorem slice_sequence_bounds_witness:
  "slice_sequence ''ABCDEFGHIJ'' (Some 5) (Some 2) = Inl ValueError \<and>
   slice_sequence ''ABCDEFGHIJ'' (Some 2) (Some 5) = Inr ''CDE'' \<and>
   slice_sequence ''ABCDEFGHIJ'' (Some 8) (Some 50) = Inr ''IJ'' \<and>
   slice_sequence ''ABCDEFGHIJ'' (Some (-3)) (Some (-1)) = Inr ''HI'' \<and>
   slice_sequence ''ABCDEFGHIJ'' (Some (-30)) (Some 2) = Inr ''AB'' \<and>
   slice_sequence ''ABCDEFGHIJ'' None (Some 2) = Inr ''ABCDEFGHIJ''"
  using slice_sequence_bounds [of 2 5 "''ABCDEFGHIJ''" "Some 2"]
    slice_sequence_bounds [of 5 2 "''ABCDEFGHIJ''"]
    slice_sequence_bounds [of 50 8 "''ABCDEFGHIJ''"]
    slice_sequence_bounds [of "-1" "-3" "''ABCDEFGHIJ''"]
    slice_sequence_bounds [of 2 "-30" "''ABCDEFGHIJ''"]
  by (simp add: resolve_def)

text \<open>
  With both bounds negative and inside the text, clamping as the specification words it
  gives the empty text, where the slicer returns the two characters before the last.
\<close>

theorem negative_bounds_counterexample:
  "slice_sequence ''ABCDEFGHIJ'' (Some (-3)) (Some (-1)) = Inr ''HI'' \<and>
   clamped_slice ''ABCDEFGHIJ'' (-3) (-1) = [] \<and>
   slice_sequence ''ABCDEFGHIJ'' (Some (-3)) (Some (-1)) \<noteq> Inr (clamped_slice ''ABCDEFGHIJ'' (-3) (-1))"
  by (simp add: slice_sequence_def py_slice_def adjust_index_def clamped_slice_def clamp_def)


section \<open>Writing and reading again\<close>

subsection \<open>Stripping\<close>

lemma isspace_newlines: "isspace (CHR 0x0A)" "isspace (CHR 0x0D)" "\<not> isspace (CHR ''>'')"
  by (simp_all add: isspace_def whitespace_def)

lemma strip_append_space:
  assumes "isspace c"
  shows "strip (s @ [c]) = strip s"
proof (cases "\<forall>x \<in> set s. isspace x")
  case True
  then have e: "dropWhile isspace (s @ [c]) = []" "dropWhile isspace s = []"
    unfolding dropWhile_eq_Nil_conv using assms by auto
  show ?thesis unfolding strip_def e by simp
next
  case False
  then obtain x where "x \<in> set s" "\<not> isspace x" by blast
  then have e: "dropWhile isspace (s @ [c]) = dropWhile isspace s @ [c]"
    by (rule dropWhile_append1)
  show ?thesis unfolding strip_def e using assms by simp
qed

lemma strip_trimmed_id:
  assumes "s \<noteq> []" "\<not> isspace (hd s)" "\<not> isspace (last s)"
  shows "strip s = s"
proof -
  have 1: "dropWhile isspace s = s"
    using assms by (cases s) simp_all
  have "rev s \<noteq> []" "\<not> isspace (hd (rev s))"
    using assms by (simp_all add: hd_rev)
  then have "dropWhile isspace (rev s) = rev s"
    by (cases "rev s") simp_all
  with 1 show ?thesis by (simp add: strip_def)
qed

lemma trimmed_strip: "trimmed (strip s)"
proof -
  define u where "u = dropWhile isspace s"
  define v where "v = dropWhile isspace (rev u)"
  have sv: "strip s = rev v" by (simp add: strip_def u_def v_def)
  show ?thesis
  proof (cases "v = []")
    case True
    then show ?thesis by (simp add: sv trimmed_def)
  next
    case False
    then have hv: "\<not> isspace (hd v)"
      unfolding v_def by (metis hd_dropWhile)
    from False have "u \<noteq> []" by (auto simp: v_def)
    then have hu: "\<not> isspace (hd u)"
      unfolding u_def by (metis hd_dropWhile)
    obtain t where "rev u = t @ v"
      unfolding v_def by (metis takeWhile_dropWhile_id)
    then have "last (rev u) = last v" using False by simp
    then have "last v = hd u" using \<open>u \<noteq> []\<close> by (simp add: last_rev)
    with hu hv False show ?thesis
      by (simp add: sv trimmed_def hd_rev last_rev)
  qed
qed

lemma set_strip: "set (strip s) \<subseteq> set s"
proof
  fix x assume "x \<in> set (strip s)"
  then have "x \<in> set (dropWhile isspace (rev (dropWhile isspace s)))"
    by (simp add: strip_def)
  then have "x \<in> set (rev (dropWhile isspace s))"
    by (rule set_dropWhileD)
  then have "x \<in> set (dropWhile isspace s)" by simp
  then show "x \<in> set s" by (rule set_dropWhileD)
qed


subsection \<open>Lines of a file\<close>

lemma universal_newlines_no_CR: "CHR 0x0D \<notin> set (universal_newlines s)"
  by (induction s rule: universal_newlines.induct) auto

lemma universal_newlines_id: "CHR 0x0D \<notin> set s \<Longrightarrow> universal_newlines s = s"
  by (induction s rule: universal_newlines.induct) auto

lemma split_lines_append:
  "CHR 0x0A \<notin> set l \<Longrightarrow> split_lines (l @ CHR 0x0A # rest) = (l @ [CHR 0x0A]) # split_lines rest"
  by (induction l) auto

lemma split_lines_shape:
  "raw \<in> set (split_lines s) \<Longrightarrow>
     set raw \<subseteq> set s \<and> (CHR 0x0A \<notin> set raw \<or> (\<exists>b. raw = b @ [CHR 0x0A] \<and> CHR 0x0A \<notin> set b))"
proof (induction s arbitrary: raw)
  case Nil
  then show ?case by simp
next
  case (Cons c cs)
  show ?case
  proof (cases "c = CHR 0x0A")
    case True
    with Cons show ?thesis by (auto split: if_splits)
  next
    case False
    show ?thesis
    proof (cases "split_lines cs")
      case Nil
      with False Cons.prems show ?thesis by simp
    next
      case (Cons l ls)
      have l: "set l \<subseteq> set cs \<and> (CHR 0x0A \<notin> set l \<or> (\<exists>b. l = b @ [CHR 0x0A] \<and> CHR 0x0A \<notin> set b))"
        using Cons.IH [of l] Cons by simp
      from Cons.prems False Cons have "raw = c # l \<or> raw \<in> set ls" by simp
      then show ?thesis
      proof
        assume r: "raw = c # l"
        from l show ?thesis
        proof (elim conjE disjE exE)
          assume "set l \<subseteq> set cs" "CHR 0x0A \<notin> set l"
          with r False show ?thesis by auto
        next
          fix b assume "set l \<subseteq> set cs" "l = b @ [CHR 0x0A]" "CHR 0x0A \<notin> set b"
          with r False have "raw = (c # b) @ [CHR 0x0A] \<and> CHR 0x0A \<notin> set (c # b)" by simp
          moreover have "set raw \<subseteq> set (c # cs)" using r \<open>set l \<subseteq> set cs\<close> by auto
          ultimately show ?thesis by blast
        qed
      next
        assume "raw \<in> set ls"
        then have "raw \<in> set (split_lines cs)" using Cons by simp
        from Cons.IH [OF this] show ?thesis by auto
      qed
    qed
  qed
qed

lemma one_line_strip_file_line:
  assumes "raw \<in> set (file_lines c)"
  shows "one_line (strip raw)"
proof -
  from assms have mem: "raw \<in> set (split_lines (universal_newlines c))"
    by (simp add: file_lines_def)
  from split_lines_shape [OF mem] universal_newlines_no_CR [of c]
  have cr: "CHR 0x0D \<notin> set raw"
    and lf: "CHR 0x0A \<notin> set raw \<or> (\<exists>b. raw = b @ [CHR 0x0A] \<and> CHR 0x0A \<notin> set b)"
    by auto
  from lf have "CHR 0x0A \<notin> set (strip raw)"
  proof (elim disjE exE conjE)
    assume "CHR 0x0A \<notin> set raw"
    then show ?thesis using set_strip [of raw] by auto
  next
    fix b assume "raw = b @ [CHR 0x0A]" "CHR 0x0A \<notin> set b"
    then show ?thesis
      using set_strip [of b] by (auto simp: strip_append_space isspace_newlines)
  qed
  with cr set_strip [of raw] show ?thesis by (auto simp: one_line_def)
qed

subsection \<open>What the parser returns can be written and read again\<close>

lemma tidy_flush: "tidy st \<Longrightarrow> tidy (flush st)"
  by (auto simp: tidy_def flush_def seq_ok_def split: option.splits)

lemma id_ok_tl_strip:
  assumes "one_line (strip raw)" "is_header raw"
  shows "tl (strip raw) = [] \<or> id_ok (tl (strip raw))"
proof (cases "strip raw")
  case Nil
  then show ?thesis by simp
next
  case (Cons a t)
  have "trimmed (a # t)" using trimmed_strip [of raw] Cons by simp
  then have "t \<noteq> [] \<Longrightarrow> \<not> isspace (last t)" by (simp add: trimmed_def)
  moreover have "one_line t" using assms(1) Cons by (simp add: one_line_def)
  ultimately show ?thesis using Cons by (auto simp: id_ok_def)
qed

lemma trimmed_append:
  "trimmed a \<Longrightarrow> trimmed b \<Longrightarrow> trimmed (a @ b)"
  by (cases "a = []"; cases "b = []") (simp_all add: trimmed_def)

lemma startswith_marker_append:
  "\<not> startswith_marker a \<Longrightarrow> \<not> startswith_marker b \<Longrightarrow> \<not> startswith_marker (a @ b)"
  by (cases a) (simp_all add: startswith_marker_def)

lemma tidy_parse_line:
  assumes "tidy st" "one_line (strip raw)"
  shows "tidy (parse_line st raw)"
proof (cases "is_header raw")
  case True
  have "tidy (flush st)" using assms(1) by (rule tidy_flush)
  then show ?thesis
    using True id_ok_tl_strip [OF assms(2) True]
    by (auto simp: parse_line_header tidy_def one_line_def trimmed_def startswith_marker_def)
next
  case False
  then have "\<not> startswith_marker (strip raw)" by (simp add: is_header_def)
  then show ?thesis
    using assms False trimmed_strip [of raw]
    by (auto simp: parse_line_body tidy_def one_line_def trimmed_append startswith_marker_append)
qed

lemma tidy_parse_loop:
  "tidy st \<Longrightarrow> (\<forall>raw \<in> set ls. one_line (strip raw)) \<Longrightarrow> tidy (parse_loop st ls)"
  by (induction ls arbitrary: st) (simp_all add: tidy_parse_line)

lemma parse_text_tidy:
  "list_all id_ok (fst (parse_text c)) \<and> list_all seq_ok (snd (parse_text c))"
proof -
  have "tidy initial_state"
    by (simp add: tidy_def initial_state_def one_line_def trimmed_def startswith_marker_def)
  then have "tidy (flush (parse_loop initial_state (file_lines c)))"
    by (intro tidy_flush tidy_parse_loop) (simp_all add: one_line_strip_file_line)
  then show ?thesis by (simp add: parse_text_def Let_def tidy_def)
qed

text \<open>The lines of a written file.\<close>

lemma split_lines_plain:
  "list_all (\<lambda>(i, s). one_line i \<and> one_line s) recs \<Longrightarrow>
     split_lines (plain_lines recs) = concat (map (\<lambda>(i, s). [i @ ''\<newline>'', s @ ''\<newline>'']) recs)"
proof (induction recs)
  case Nil
  then show ?case by (simp add: plain_lines_def)
next
  case (Cons r recs)
  obtain i s where r: "r = (i, s)" by (cases r)
  from Cons.prems have lf: "CHR 0x0A \<notin> set i" "CHR 0x0A \<notin> set s"
    and rest: "list_all (\<lambda>(i, s). one_line i \<and> one_line s) recs"
    by (simp_all add: one_line_def r)
  have pl: "plain_lines (r # recs) = i @ CHR 0x0A # (s @ CHR 0x0A # plain_lines recs)"
    by (simp add: plain_lines_def r)
  have "split_lines (plain_lines (r # recs))
      = (i @ [CHR 0x0A]) # split_lines (s @ CHR 0x0A # plain_lines recs)"
    unfolding pl by (rule split_lines_append [OF lf(1)])
  also have "split_lines (s @ CHR 0x0A # plain_lines recs)
      = (s @ [CHR 0x0A]) # split_lines (plain_lines recs)"
    by (rule split_lines_append [OF lf(2)])
  also have "split_lines (plain_lines recs)
      = concat (map (\<lambda>(i, s). [i @ ''\<newline>'', s @ ''\<newline>'']) recs)"
    by (rule Cons.IH [OF rest])
  finally show ?case by (simp add: r)
qed

lemma plain_lines_no_CR:
  "list_all (\<lambda>(i, s). one_line i \<and> one_line s) recs \<Longrightarrow> CHR 0x0D \<notin> set (plain_lines recs)"
proof (induction recs)
  case Nil
  then show ?case by (simp add: plain_lines_def)
next
  case (Cons r recs)
  obtain i s where r: "r = (i, s)" by (cases r)
  from Cons.prems have cr: "CHR 0x0D \<notin> set i" "CHR 0x0D \<notin> set s"
    and rest: "list_all (\<lambda>(i, s). one_line i \<and> one_line s) recs"
    by (simp_all add: one_line_def r)
  have pl: "plain_lines (r # recs) = i @ CHR 0x0A # (s @ CHR 0x0A # plain_lines recs)"
    by (simp add: plain_lines_def r)
  show ?case unfolding pl using cr Cons.IH [OF rest] by simp
qed


lemma file_lines_plain:
  assumes "list_all (\<lambda>(i, s). one_line i \<and> one_line s) recs"
  shows "file_lines (plain_lines recs) =
           concat (map (\<lambda>(i, s). [i @ ''\<newline>'', s @ ''\<newline>'']) recs)"
  using assms
  by (simp add: file_lines_def universal_newlines_id plain_lines_no_CR split_lines_plain)

lemma parse_line_marked:
  assumes "id_ok i"
  shows "parse_line st (with_marker i @ ''\<newline>'')
           = (flush st)\<lparr>current_id := Some i, current_sequence := []\<rparr>"
proof -
  have "strip (with_marker i @ [CHR 0x0A]) = strip (with_marker i)"
    by (rule strip_append_space) (rule isspace_newlines)
  also have "\<dots> = with_marker i"
    using assms by (intro strip_trimmed_id) (simp_all add: with_marker_def id_ok_def isspace_newlines)
  finally have "strip (with_marker i @ ''\<newline>'') = with_marker i" .
  then show ?thesis
    by (simp add: parse_line_def with_marker_def startswith_marker_def)
qed

lemma parse_line_sequence:
  assumes "seq_ok s"
  shows "parse_line st (s @ ''\<newline>'') = st\<lparr>current_sequence := current_sequence st @ s\<rparr>"
proof -
  have "strip (s @ [CHR 0x0A]) = strip s"
    by (rule strip_append_space) (rule isspace_newlines)
  also have "\<dots> = s"
    using assms by (intro strip_trimmed_id) (auto simp: seq_ok_def trimmed_def)
  finally have "strip (s @ ''\<newline>'') = s" .
  then show ?thesis
    using assms by (simp add: parse_line_def seq_ok_def)
qed

lemma parse_loop_written:
  assumes "list_all id_ok is" "list_all seq_ok ss" "length is = length ss"
  shows "ids (flush (parse_loop st
            (concat (map (\<lambda>(i, s). [i @ ''\<newline>'', s @ ''\<newline>'']) (zip (map with_marker is) ss)))))
           = ids (flush st) @ is \<and>
         sequences (flush (parse_loop st
            (concat (map (\<lambda>(i, s). [i @ ''\<newline>'', s @ ''\<newline>'']) (zip (map with_marker is) ss)))))
           = sequences (flush st) @ ss"
  using assms(3,1,2)
proof (induction "is" ss arbitrary: st rule: list_induct2)
  case Nil
  then show ?case by simp
next
  case (Cons i "is" s ss)
  let ?st = "(flush st)\<lparr>current_id := Some i, current_sequence := s\<rparr>"
  have ok: "id_ok i" "seq_ok s" "list_all id_ok is" "list_all seq_ok ss"
    using Cons.prems by simp_all
  have fl: "ids (flush ?st) = ids (flush st) @ [i]"
    "sequences (flush ?st) = sequences (flush st) @ [s]"
    using ok by (simp_all add: flush_def id_ok_def seq_ok_def)
  have "parse_line (parse_line st (with_marker i @ ''\<newline>'')) (s @ ''\<newline>'') = ?st"
    by (simp add: parse_line_marked [OF ok(1)] parse_line_sequence [OF ok(2)])
  then have step: "parse_loop st (concat (map (\<lambda>(i, s). [i @ ''\<newline>'', s @ ''\<newline>''])
                     (zip (map with_marker (i # is)) (s # ss))))
        = parse_loop ?st (concat (map (\<lambda>(i, s). [i @ ''\<newline>'', s @ ''\<newline>''])
                     (zip (map with_marker is) ss)))"
    by simp
  show ?case
    unfolding step using Cons.IH [OF ok(3,4), of ?st] by (simp add: fl)
qed

lemma parse_text_written:
  assumes "list_all id_ok is" "list_all seq_ok ss" "length is = length ss"
  shows "parse_text (plain_lines (zip (map with_marker is) ss)) = (is, ss)"
proof -
  have "list_all (\<lambda>(i, s). one_line i \<and> one_line s) (zip (map with_marker is) ss)"
    using assms(3,1,2)
    by (induction "is" ss rule: list_induct2)
       (simp_all add: id_ok_def seq_ok_def one_line_def with_marker_def)
  then have "file_lines (plain_lines (zip (map with_marker is) ss)) =
      concat (map (\<lambda>(i, s). [i @ ''\<newline>'', s @ ''\<newline>'']) (zip (map with_marker is) ss))"
    by (rule file_lines_plain)
  then show ?thesis
    using parse_loop_written [OF assms, of initial_state]
    by (simp add: parse_text_def Let_def flush_def initial_state_def)
qed

lemma write_records_plain:
  "files w p = Some (TextFile x) \<Longrightarrow> write_budget w = None \<Longrightarrow>
     write_records p d None True recs w
       = (Inr (), w\<lparr>files := (files w)(p \<mapsto> TextFile (x @ plain_lines recs))\<rparr>)"
proof (induction recs arbitrary: w x)
  case Nil
  then have "(files w)(p \<mapsto> TextFile x) = files w" by (simp add: fun_upd_idem)
  then show ?case by (simp add: plain_lines_def)
next
  case (Cons r recs)
  obtain i s where r: "r = (i, s)" by (cases r)
  let ?w = "w\<lparr>files := (files w)(p \<mapsto> TextFile (x @ i @ ''\<newline>'' @ s @ ''\<newline>''))\<rparr>"
  have 1: "write_record p d None True r w = (Inr (), ?w)"
    using Cons.prems by (simp add: write_record_def file_write_def content_of_def r)
  have 2: "write_records p d None True recs ?w
       = (Inr (), ?w\<lparr>files := (files ?w)(p \<mapsto> TextFile ((x @ i @ ''\<newline>'' @ s @ ''\<newline>'') @ plain_lines recs))\<rparr>)"
    by (rule Cons.IH) (simp_all add: Cons.prems)
  have 3: "plain_lines (r # recs) = i @ ''\<newline>'' @ s @ ''\<newline>'' @ plain_lines recs"
    by (simp add: plain_lines_def r)
  have "write_records p d None True (r # recs) w = write_records p d None True recs ?w"
    by (simp add: 1)
  also note 2
  also have "?w\<lparr>files := (files ?w)(p \<mapsto> TextFile ((x @ i @ ''\<newline>'' @ s @ ''\<newline>'') @ plain_lines recs))\<rparr>
      = w\<lparr>files := (files w)(p \<mapsto> TextFile (x @ plain_lines (r # recs)))\<rparr>"
    by (simp add: 3)
  finally show ?case .
qed

lemma open_w_result:
  "open_w w p = Inr w1 \<Longrightarrow> w1 = w\<lparr>files := (files w)(p \<mapsto> TextFile [])\<rparr>"
  by (simp add: open_w_def split: if_splits option.splits)

lemma save_sequences_plain:
  assumes "open_w w p = Inr w1" "write_budget w = None"
  shows "save_sequences_to_file is ss (Some p) d None True w
       = (Inr (), w\<lparr>files := (files w)(p \<mapsto> TextFile (plain_lines (zip is ss)))\<rparr>)"
proof -
  let ?w = "w\<lparr>files := (files w)(p \<mapsto> TextFile [])\<rparr>"
  have "open_w w p = Inr ?w"
    using assms(1) open_w_result [OF assms(1)] by simp
  moreover have "write_records p d None True (zip is ss) ?w
      = (Inr (), ?w\<lparr>files := (files ?w)(p \<mapsto> TextFile ([] @ plain_lines (zip is ss)))\<rparr>)"
    by (rule write_records_plain) (simp_all add: assms(2))
  ultimately show ?thesis by (simp add: save_sequences_to_file_def)
qed

text \<open>
  C3 (amended). The writer does not write the marker, so a written file is read back only
  when the marker is put in front of each identifier: for the identifiers and sequences
  that the parser returns for any file, writing them with \<^verbatim>\<open>save_sequences_to_file\<close>
  (no columns, sequences written, no write failure), each identifier preceded by \<^verbatim>\<open>>\<close>,
  to a destination that \<^verbatim>\<open>open\<close> opens for writing succeeds, and parsing the written
  file yields the same identifiers and sequences in the same order.
\<close>

theorem marked_round_trip:
  "files w f = Some (TextFile c) \<and> open_w w p = Inr w1 \<and> write_budget w = None \<and>
   parse_fasta_file w f = Inr (is, ss) \<longrightarrow>
     (\<exists>w'. save_sequences_to_file (map with_marker is) ss (Some p) d None True w = (Inr (), w') \<and>
           parse_fasta_file w' p = Inr (is, ss))"
proof
  assume a: "files w f = Some (TextFile c) \<and> open_w w p = Inr w1 \<and> write_budget w = None \<and>
   parse_fasta_file w f = Inr (is, ss)"
  then have p: "parse_text c = (is, ss)"
    by (auto simp: parse_fasta_file_def read_text_def)
  have ok: "list_all id_ok is" "list_all seq_ok ss" "length is = length ss"
    using parse_text_tidy [of c] records_ok_parse_text [of c] by (simp_all add: p)
  let ?w = "w\<lparr>files := (files w)(p \<mapsto> TextFile (plain_lines (zip (map with_marker is) ss)))\<rparr>"
  have "save_sequences_to_file (map with_marker is) ss (Some p) d None True w = (Inr (), ?w)"
    using a by (intro save_sequences_plain [of w p w1]) simp_all
  moreover have "parse_fasta_file ?w p = Inr (is, ss)"
    by (simp add: parse_fasta_file_def read_text_def parse_text_written [OF ok])
  ultimately show "\<exists>w'. save_sequences_to_file (map with_marker is) ss (Some p) d None True w = (Inr (), w') \<and>
           parse_fasta_file w' p = Inr (is, ss)"
    by blast
qed

theorem marked_round_trip_witness:
  "files ((single_file ''in.fa'' ''> a b \<newline>AC\<newline> GT\<newline>>c\<newline>TT'')
            \<lparr>files := [''in.fa'' \<mapsto> TextFile ''> a b \<newline>AC\<newline> GT\<newline>>c\<newline>TT'',
                       ''results'' \<mapsto> Directory]\<rparr>) ''in.fa''
     = Some (TextFile ''> a b \<newline>AC\<newline> GT\<newline>>c\<newline>TT'') \<and>
   open_w ((single_file ''in.fa'' ''> a b \<newline>AC\<newline> GT\<newline>>c\<newline>TT'')
            \<lparr>files := [''in.fa'' \<mapsto> TextFile ''> a b \<newline>AC\<newline> GT\<newline>>c\<newline>TT'',
                       ''results'' \<mapsto> Directory]\<rparr>) ''results/out.txt''
     = Inr ((single_file ''in.fa'' ''> a b \<newline>AC\<newline> GT\<newline>>c\<newline>TT'')
            \<lparr>files := [''in.fa'' \<mapsto> TextFile ''> a b \<newline>AC\<newline> GT\<newline>>c\<newline>TT'',
                       ''results'' \<mapsto> Directory, ''results/out.txt'' \<mapsto> TextFile []]\<rparr>) \<and>
   parse_fasta_file ((single_file ''in.fa'' ''> a b \<newline>AC\<newline> GT\<newline>>c\<newline>TT'')
            \<lparr>files := [''in.fa'' \<mapsto> TextFile ''> a b \<newline>AC\<newline> GT\<newline>>c\<newline>TT'',
                       ''results'' \<mapsto> Directory]\<rparr>) ''in.fa''
     = Inr (['' a b'', ''c''], [''ACGT'', ''TT'']) \<and>
   (\<exists>w'. save_sequences_to_file (map with_marker ['' a b'', ''c'']) [''ACGT'', ''TT'']
            (Some ''results/out.txt'') tab None True
            ((single_file ''in.fa'' ''> a b \<newline>AC\<newline> GT\<newline>>c\<newline>TT'')
               \<lparr>files := [''in.fa'' \<mapsto> TextFile ''> a b \<newline>AC\<newline> GT\<newline>>c\<newline>TT'',
                          ''results'' \<mapsto> Directory]\<rparr>) = (Inr (), w') \<and>
         parse_fasta_file w' ''results/out.txt'' = Inr (['' a b'', ''c''], [''ACGT'', ''TT'']))"
proof -
  let ?c = "''> a b \<newline>AC\<newline> GT\<newline>>c\<newline>TT''"
  let ?w = "(single_file ''in.fa'' ?c)\<lparr>files := [''in.fa'' \<mapsto> TextFile ?c, ''results'' \<mapsto> Directory]\<rparr>"
  let ?o = "(single_file ''in.fa'' ?c)\<lparr>files := [''in.fa'' \<mapsto> TextFile ?c, ''results'' \<mapsto> Directory,
              ''results/out.txt'' \<mapsto> TextFile []]\<rparr>"
  have 1: "files ?w ''in.fa'' = Some (TextFile ?c)" "write_budget ?w = None"
    by (simp_all add: single_file_def)
  have 2: "open_w ?w ''results/out.txt'' = Inr ?o"
    by (simp add: open_w_def dir_error_def is_directory_def dir_of_def base_of_def rstrip_slash_def single_file_def)
  have 3: "parse_fasta_file ?w ''in.fa'' = Inr (['' a b'', ''c''], [''ACGT'', ''TT''])"
    by (simp add: eval_defs)
  from marked_round_trip [of ?w "''in.fa''" ?c "''results/out.txt''" ?o
      "['' a b'', ''c'']" "[''ACGT'', ''TT'']" tab] 1 2 3
  show ?thesis by blast
qed

text \<open>
  As the specification words it, without the marker, the round trip fails: the record
  \<^verbatim>\<open>("a", "ACGT")\<close> is written as \<^verbatim>\<open>"a\nACGT\n"\<close>, a file that has no header line, and
  parsing it yields no record.
\<close>

theorem round_trip_counterexample:
  "parse_fasta_file (single_file ''in.fa'' ''>a\<newline>ACGT\<newline>'') ''in.fa'' = Inr ([''a''], [''ACGT'']) \<and>
   save_sequences_to_file [''a''] [''ACGT''] (Some ''out.txt'') tab None True
       (single_file ''in.fa'' ''>a\<newline>ACGT\<newline>'')
     = (Inr (), (single_file ''in.fa'' ''>a\<newline>ACGT\<newline>'')
          \<lparr>files := [''in.fa'' \<mapsto> TextFile ''>a\<newline>ACGT\<newline>'', ''out.txt'' \<mapsto> TextFile ''a\<newline>ACGT\<newline>'']\<rparr>) \<and>
   parse_fasta_file (snd (save_sequences_to_file [''a''] [''ACGT''] (Some ''out.txt'') tab None True
       (single_file ''in.fa'' ''>a\<newline>ACGT\<newline>''))) ''out.txt'' = Inr ([], []) \<and>
   parse_fasta_file (snd (save_sequences_to_file [''a''] [''ACGT''] (Some ''out.txt'') tab None True
       (single_file ''in.fa'' ''>a\<newline>ACGT\<newline>''))) ''out.txt''
     \<noteq> parse_fasta_file (single_file ''in.fa'' ''>a\<newline>ACGT\<newline>'') ''in.fa''"
  by (simp add: eval_defs save_sequences_to_file_def open_w_def dir_error_def is_directory_def
      dir_of_def base_of_def rstrip_slash_def file_write_def content_of_def write_record_def)


section \<open>Properties of the writers\<close>

lemmas world_defs =
  save_sequences_to_file_def open_w_def dir_error_def is_directory_def dir_of_def base_of_def rstrip_slash_def file_write_def
  content_of_def write_record_def print_def exists_def os_remove_def single_file_def

lemmas run_defs =
  get_sequence_by_id_def validate_input_def guarded_block_def slice_sequence_def
  py_slice_def adjust_index_def

text \<open>
  C6. The claim asks that a column index beyond the fields of the identifier gives an
  empty field. \<^verbatim>\<open>save_ids_to_file\<close> does so; \<^verbatim>\<open>save_sequences_to_file\<close>, the writer that
  \<^verbatim>\<open>get_sequence_by_id\<close> calls, indexes the fields directly and raises \<^verbatim>\<open>IndexError\<close>. For
  the identifier \<^verbatim>\<open>"seq1"\<close> and the columns \<^verbatim>\<open>[1]\<close>: the writer raises and leaves an empty
  destination, the run reports the error as a notice, and \<^verbatim>\<open>save_ids_to_file\<close> writes the
  empty field and the sequence.
\<close>

theorem strict_projection_raises:
  "save_sequences_to_file [''seq1''] [''ACGT''] (Some ''out.txt'') tab (Some [1]) True
       (single_file ''in.fa'' ''>seq1\<newline>ACGT\<newline>'')
     = (Inl IndexError,
        (single_file ''in.fa'' ''>seq1\<newline>ACGT\<newline>'')
          \<lparr>files := [''in.fa'' \<mapsto> TextFile ''>seq1\<newline>ACGT\<newline>'', ''out.txt'' \<mapsto> TextFile []]\<rparr>) \<and>
   stdout (snd (get_sequence_by_id ''in.fa'' None None None (Some ''out.txt'') tab (Some [1]) True
       (single_file ''in.fa'' ''>seq1\<newline>ACGT\<newline>''))) = [Error_occurred IndexError] \<and>
   files (snd (save_ids_to_file [''seq1''] ''out.txt'' tab (Some [1]) (Some [''ACGT''])
       (single_file ''in.fa'' ''>seq1\<newline>ACGT\<newline>''))) ''out.txt'' = Some (TextFile ''\<newline>ACGT\<newline>'')"
  by (simp add: eval_defs run_defs world_defs tab_def split_def py_index_def
      save_ids_to_file_def save_ids_try_def write_id_row_def)

text \<open>
  C7. The claim asks that the column projection is applied to the identifier line when
  sequences are not written. \<^verbatim>\<open>save_sequences_to_file\<close> looks at the columns only when
  sequences are written: for the identifier \<^verbatim>\<open>"seq1 len=10"\<close> and the columns \<^verbatim>\<open>[0]\<close> it
  writes the whole identifier, where \<^verbatim>\<open>save_ids_to_file\<close> writes the first field.
\<close>

theorem columns_ignored_without_sequence:
  "files (snd (save_sequences_to_file [''seq1 len=10''] [''ACGT''] (Some ''out.txt'') tab (Some [0]) False
       (single_file ''in.fa'' []))) ''out.txt'' = Some (TextFile ''seq1 len=10\<newline>'') \<and>
   files (snd (save_ids_to_file [''seq1 len=10''] ''out.txt'' tab (Some [0]) None
       (single_file ''in.fa'' []))) ''out.txt'' = Some (TextFile ''seq1\<newline>'')"
  by (simp add: world_defs tab_def split_def py_index_def isspace_def whitespace_def
      save_ids_to_file_def save_ids_try_def write_id_row_def)

text \<open>
  C9. The claim asks that no partly written destination survives a failed write. When the
  device accepts one write and refuses the next, \<^verbatim>\<open>save_sequences_to_file\<close> raises
  \<^verbatim>\<open>OSError\<close> and the destination keeps the first record; \<^verbatim>\<open>save_ids_to_file\<close>, in the
  same situation, reports the error and removes the file.
\<close>

theorem partial_file_survives:
  "save_sequences_to_file [''a'', ''b''] [''AC'', ''GT''] (Some ''out.txt'') tab None True
       ((single_file ''in.fa'' [])\<lparr>write_budget := Some 1\<rparr>)
     = (Inl OSError,
        \<lparr>files = [''in.fa'' \<mapsto> TextFile [], ''out.txt'' \<mapsto> TextFile ''a\<newline>AC\<newline>''],
         stdout = [], write_budget = Some 0, open_fault = Map.empty\<rparr>) \<and>
   save_ids_to_file [''a'', ''b''] ''out.txt'' tab None (Some [''AC'', ''GT''])
       ((single_file ''in.fa'' [])\<lparr>write_budget := Some 2\<rparr>)
     = (Inr (),
        \<lparr>files = [''in.fa'' \<mapsto> TextFile []],
         stdout = [Error_opening ''out.txt'' OSError], write_budget = Some 0, open_fault = Map.empty\<rparr>)"
  by (simp add: world_defs tab_def split_def py_index_def isspace_def whitespace_def
      save_ids_to_file_def save_ids_try_def write_id_row_def)


section \<open>Properties of \<^verbatim>\<open>get_sequence_by_id\<close>\<close>

lemma get_sequence_by_id_text:
  assumes "files w f = Some (TextFile c)"
  shows "get_sequence_by_id f sid start end out d cols ws w =
     (case guarded_block (fst (parse_text c)) (snd (parse_text c)) sid start end out d
             (normalized cols) ws w of
        (Inl e, w') \<Rightarrow> (Inr (), print (Error_occurred e) w')
      | (Inr u, w') \<Rightarrow> (Inr u, w'))"
  using assms
  by (simp add: get_sequence_by_id_def validate_input_def exists_def parse_fasta_file_text
      normalized_def Let_def split: prod.splits)

lemma get_sequence_by_id_unreadable:
  assumes "files w f = Some n" "n = Undecodable \<or> n = Directory"
  shows "get_sequence_by_id f sid start end out d cols ws w =
     (Inl (if n = Directory then IsADirectoryError else UnicodeDecodeError), w)"
  using assms
  by (auto simp: get_sequence_by_id_def validate_input_def exists_def parse_fasta_file_def
      read_text_def)

text \<open>
  C4 (amended). For every run on a readable text file the call returns normally. An
  exception raised by the slicer, or by the writer on either path, is caught and reported
  as a notice. The parser runs before the guarded block: when validation passes and the
  parser raises (the file cannot be decoded, or the path is a directory), the exception
  reaches the caller.
\<close>

theorem run_catches_slicer_and_writer:
  "(files w f = Some (TextFile c) \<longrightarrow>
      (\<exists>w'. get_sequence_by_id f sid start end out d cols ws w = (Inr (), w'))) \<and>
   (files w f = Some (TextFile c) \<and> sid = Some (x # xs) \<and>
    find_target (zip (fst (parse_text c)) (snd (parse_text c))) (x # xs) start end = Inl e \<longrightarrow>
      get_sequence_by_id f sid start end out d cols ws w = (Inr (), print (Error_occurred e) w)) \<and>
   (files w f = Some (TextFile c) \<and> (sid = None \<or> sid = Some []) \<and>
    save_sequences_to_file (fst (parse_text c)) (snd (parse_text c)) out d (normalized cols) ws w
      = (Inl e, w1) \<longrightarrow>
      get_sequence_by_id f sid start end out d cols ws w = (Inr (), print (Error_occurred e) w1)) \<and>
   (files w f = Some (TextFile c) \<and> sid = Some (x # xs) \<and>
    find_target (zip (fst (parse_text c)) (snd (parse_text c))) (x # xs) start end = Inr (t # ts) \<and>
    save_sequences_to_file [x # xs] [t # ts] out d (normalized cols) ws
      (if ws then print (Length_notice (length (t # ts))) (print (ID_notice (x # xs)) w)
       else print (ID_notice (x # xs)) w) = (Inl e, w1) \<longrightarrow>
      get_sequence_by_id f sid start end out d cols ws w = (Inr (), print (Error_occurred e) w1)) \<and>
   (files w f = Some Undecodable \<longrightarrow>
      validate_input w f sid = Inr () \<and>
      get_sequence_by_id f sid start end out d cols ws w = (Inl UnicodeDecodeError, w)) \<and>
   (files w f = Some Directory \<longrightarrow>
      validate_input w f sid = Inr () \<and>
      get_sequence_by_id f sid start end out d cols ws w = (Inl IsADirectoryError, w))"
proof (intro conjI impI)
  assume f: "files w f = Some (TextFile c)"
  obtain r w' where g: "guarded_block (fst (parse_text c)) (snd (parse_text c)) sid start end out d
             (normalized cols) ws w = (r, w')"
    by (cases "guarded_block (fst (parse_text c)) (snd (parse_text c)) sid start end out d
             (normalized cols) ws w")
  show "\<exists>w'. get_sequence_by_id f sid start end out d cols ws w = (Inr (), w')"
    by (cases r) (simp_all add: get_sequence_by_id_text [OF f] g)
next
  assume "files w f = Some (TextFile c) \<and> sid = Some (x # xs) \<and>
    find_target (zip (fst (parse_text c)) (snd (parse_text c))) (x # xs) start end = Inl e"
  then show "get_sequence_by_id f sid start end out d cols ws w = (Inr (), print (Error_occurred e) w)"
    by (simp add: get_sequence_by_id_text guarded_block_def)
next
  assume "files w f = Some (TextFile c) \<and> (sid = None \<or> sid = Some []) \<and>
    save_sequences_to_file (fst (parse_text c)) (snd (parse_text c)) out d (normalized cols) ws w
      = (Inl e, w1)"
  then show "get_sequence_by_id f sid start end out d cols ws w = (Inr (), print (Error_occurred e) w1)"
    by (auto simp: get_sequence_by_id_text guarded_block_def)
next
  assume "files w f = Some (TextFile c) \<and> sid = Some (x # xs) \<and>
    find_target (zip (fst (parse_text c)) (snd (parse_text c))) (x # xs) start end = Inr (t # ts) \<and>
    save_sequences_to_file [x # xs] [t # ts] out d (normalized cols) ws
      (if ws then print (Length_notice (length (t # ts))) (print (ID_notice (x # xs)) w)
       else print (ID_notice (x # xs)) w) = (Inl e, w1)"
  then show "get_sequence_by_id f sid start end out d cols ws w = (Inr (), print (Error_occurred e) w1)"
    by (auto simp: get_sequence_by_id_text guarded_block_def Let_def split: if_splits)
next
  assume "files w f = Some Undecodable"
  then show "validate_input w f sid = Inr ()"
    "get_sequence_by_id f sid start end out d cols ws w = (Inl UnicodeDecodeError, w)"
    by (simp_all add: get_sequence_by_id_unreadable validate_input_def exists_def)
next
  assume "files w f = Some Directory"
  then show "validate_input w f sid = Inr ()"
    "get_sequence_by_id f sid start end out d cols ws w = (Inl IsADirectoryError, w)"
    by (simp_all add: get_sequence_by_id_unreadable validate_input_def exists_def)
qed

theorem run_catches_slicer_and_writer_witness:
  "get_sequence_by_id ''in.fa'' (Some ''a'') (Some 5) (Some 2) (Some ''out.txt'') tab None True
       (single_file ''in.fa'' ''>a\<newline>ACGT\<newline>'')
     = (Inr (), print (Error_occurred ValueError) (single_file ''in.fa'' ''>a\<newline>ACGT\<newline>'')) \<and>
   stdout (snd (get_sequence_by_id ''in.fa'' None None None (Some ''out.txt'') tab (Some [5]) True
       (single_file ''in.fa'' ''>a\<newline>ACGT\<newline>''))) = [Error_occurred IndexError] \<and>
   stdout (snd (get_sequence_by_id ''in.fa'' (Some ''a'') None None (Some ''out.txt'') tab (Some [5]) True
       (single_file ''in.fa'' ''>a\<newline>ACGT\<newline>'')))
     = [ID_notice ''a'', Length_notice 4, Error_occurred IndexError] \<and>
   fst (get_sequence_by_id ''in.fa'' None None None None tab None True
       \<lparr>files = [''in.fa'' \<mapsto> Undecodable], stdout = [], write_budget = None, open_fault = Map.empty\<rparr>)
     = Inl UnicodeDecodeError \<and>
   fst (get_sequence_by_id ''in.fa'' None None None None tab None True
       \<lparr>files = [''in.fa'' \<mapsto> Directory], stdout = [], write_budget = None, open_fault = Map.empty\<rparr>)
     = Inl IsADirectoryError"
proof -
  let ?c = "''>a\<newline>ACGT\<newline>''"
  let ?w = "single_file ''in.fa'' ?c"
  let ?o = "?w\<lparr>files := (files ?w)(''out.txt'' \<mapsto> TextFile [])\<rparr>"
  let ?u = "\<lparr>files = [''in.fa'' \<mapsto> Undecodable], stdout = [], write_budget = None, open_fault = Map.empty\<rparr>"
  let ?d = "\<lparr>files = [''in.fa'' \<mapsto> Directory], stdout = [], write_budget = None, open_fault = Map.empty\<rparr>"
  have f: "files ?w ''in.fa'' = Some (TextFile ?c)" by (simp add: single_file_def)
  have p: "parse_text ?c = ([''a''], [''ACGT''])" by (simp add: eval_defs)
  have s: "find_target (zip (fst (parse_text ?c)) (snd (parse_text ?c))) ''a'' (Some 5) (Some 2)
      = Inl ValueError"
    by (simp add: p slice_sequence_def)
  have t: "find_target (zip (fst (parse_text ?c)) (snd (parse_text ?c))) ''a'' None None
      = Inr ''ACGT''"
    by (simp add: p slice_sequence_def)
  have a: "save_sequences_to_file (fst (parse_text ?c)) (snd (parse_text ?c)) (Some ''out.txt'') tab
      (normalized (Some [5])) True ?w = (Inl IndexError, ?o)"
    by (simp add: p normalized_def world_defs tab_def split_def py_index_def)
  have b: "save_sequences_to_file [''a''] [''ACGT''] (Some ''out.txt'') tab (normalized (Some [5])) True
      (if True then print (Length_notice (length ''ACGT'')) (print (ID_notice ''a'') ?w)
       else print (ID_notice ''a'') ?w)
      = (Inl IndexError,
         (print (Length_notice 4) (print (ID_notice ''a'') ?w))
           \<lparr>files := (files ?w)(''out.txt'' \<mapsto> TextFile [])\<rparr>)"
    by (simp add: normalized_def world_defs tab_def split_def py_index_def)
  have 1: "get_sequence_by_id ''in.fa'' (Some ''a'') (Some 5) (Some 2) (Some ''out.txt'') tab None True ?w
      = (Inr (), print (Error_occurred ValueError) ?w)"
    using run_catches_slicer_and_writer [of ?w "''in.fa''" ?c "Some ''a''" "Some 5" "Some 2"
        "Some ''out.txt''" tab None True "CHR ''a''" "[]" ValueError] f s
    by blast
  have 2: "get_sequence_by_id ''in.fa'' None None None (Some ''out.txt'') tab (Some [5]) True ?w
      = (Inr (), print (Error_occurred IndexError) ?o)"
    using run_catches_slicer_and_writer [of ?w "''in.fa''" ?c None None None
        "Some ''out.txt''" tab "Some [5]" True _ _ IndexError ?o] f a
    by blast
  have 3: "get_sequence_by_id ''in.fa'' (Some ''a'') None None (Some ''out.txt'') tab (Some [5]) True ?w
      = (Inr (), print (Error_occurred IndexError)
           ((print (Length_notice 4) (print (ID_notice ''a'') ?w))
              \<lparr>files := (files ?w)(''out.txt'' \<mapsto> TextFile [])\<rparr>))"
    using run_catches_slicer_and_writer [of ?w "''in.fa''" ?c "Some ''a''" None None
        "Some ''out.txt''" tab "Some [5]" True "CHR ''a''" "[]" IndexError
        "(print (Length_notice 4) (print (ID_notice ''a'') ?w))
           \<lparr>files := (files ?w)(''out.txt'' \<mapsto> TextFile [])\<rparr>" "CHR ''A''" "''CGT''"] f t b
    by blast
  have 4: "get_sequence_by_id ''in.fa'' None None None None tab None True ?u
      = (Inl UnicodeDecodeError, ?u)"
    using run_catches_slicer_and_writer [of ?u "''in.fa''" _ None None None None tab None True]
    by simp
  have 5: "get_sequence_by_id ''in.fa'' None None None None tab None True ?d
      = (Inl IsADirectoryError, ?d)"
    using run_catches_slicer_and_writer [of ?d "''in.fa''" _ None None None None tab None True]
    by simp
  show ?thesis
    unfolding 1 2 3 4 5 by (simp add: print_def single_file_def)
qed

text \<open>
  As the specification words it, the claim fails for the parser: an existing file that is
  not valid UTF-8 passes validation, and the decoding error of the parser propagates.
\<close>

theorem parser_error_propagates_counterexample:
  "validate_input \<lparr>files = [''in.fa'' \<mapsto> Undecodable], stdout = [], write_budget = None, open_fault = Map.empty\<rparr> ''in.fa'' None
     = Inr () \<and>
   get_sequence_by_id ''in.fa'' None None None None tab None True
       \<lparr>files = [''in.fa'' \<mapsto> Undecodable], stdout = [], write_budget = None, open_fault = Map.empty\<rparr>
     = (Inl UnicodeDecodeError, \<lparr>files = [''in.fa'' \<mapsto> Undecodable], stdout = [], write_budget = None, open_fault = Map.empty\<rparr>)"
  by (simp add: eval_defs run_defs world_defs)

text \<open>
  C5. The claim asks that a record whose identifier equals the given one is reported and
  written as a found match, and that ``not found'' is reported only when no identifier is
  equal. The run takes the emptiness of the sliced sequence as the sign that nothing was
  found: for the file \<^verbatim>\<open>">a\nACGT\n"\<close>, the identifier \<^verbatim>\<open>"a"\<close> and the bounds 2 and 2 the
  record is there, its slice is empty, and the run reports ``not found'' and writes no file.
\<close>

theorem empty_slice_reported_not_found:
  "parse_fasta_file (single_file ''in.fa'' ''>a\<newline>ACGT\<newline>'') ''in.fa'' = Inr ([''a''], [''ACGT'']) \<and>
   slice_sequence ''ACGT'' (Some 2) (Some 2) = Inr [] \<and>
   get_sequence_by_id ''in.fa'' (Some ''a'') (Some 2) (Some 2) (Some ''out.txt'') tab None True
       (single_file ''in.fa'' ''>a\<newline>ACGT\<newline>'')
     = (Inr (), print (Not_found ''a'') (single_file ''in.fa'' ''>a\<newline>ACGT\<newline>'')) \<and>
   files (snd (get_sequence_by_id ''in.fa'' (Some ''a'') (Some 2) (Some 2) (Some ''out.txt'') tab None
       True (single_file ''in.fa'' ''>a\<newline>ACGT\<newline>''))) ''out.txt'' = None"
  by (simp add: eval_defs run_defs world_defs)

text \<open>
  C10. A run with the empty string as identifier is the run with no identifier: it takes
  the all-records path, where every record goes to the writer and no record is looked up.
  With a destination that \<^verbatim>\<open>open\<close> opens for writing, no columns and no write failure,
  the destination holds the identifier line and the sequence line of every record of the
  file.
\<close>

theorem empty_identifier_selects_all:
  "get_sequence_by_id f (Some []) start end out d cols ws w
     = get_sequence_by_id f None start end out d cols ws w \<and>
   (files w f = Some (TextFile c) \<longrightarrow>
      get_sequence_by_id f (Some []) start end out d cols ws w
        = (case save_sequences_to_file (fst (parse_text c)) (snd (parse_text c)) out d
                  (normalized cols) ws w of
             (Inl e, w') \<Rightarrow> (Inr (), print (Error_occurred e) w')
           | (Inr u, w') \<Rightarrow> (Inr u, w'))) \<and>
   (files w f = Some (TextFile c) \<and> open_w w p = Inr w1 \<and> write_budget w = None \<longrightarrow>
      get_sequence_by_id f (Some []) start end (Some p) d None True w
        = (Inr (), w\<lparr>files := (files w)(p \<mapsto> TextFile (plain_lines (fasta_records c)))\<rparr>))"
proof (intro conjI impI)
  show "get_sequence_by_id f (Some []) start end out d cols ws w
     = get_sequence_by_id f None start end out d cols ws w"
  proof -
    have "guarded_block a b (Some []) start end out d k ws w
        = guarded_block a b None start end out d k ws w" for a b k
      by (simp add: guarded_block_def)
    then show ?thesis
      by (simp add: get_sequence_by_id_def validate_input_def cong: sum.case_cong prod.case_cong)
  qed
next
  assume "files w f = Some (TextFile c)"
  then show "get_sequence_by_id f (Some []) start end out d cols ws w
        = (case save_sequences_to_file (fst (parse_text c)) (snd (parse_text c)) out d
                  (normalized cols) ws w of
             (Inl e, w') \<Rightarrow> (Inr (), print (Error_occurred e) w')
           | (Inr u, w') \<Rightarrow> (Inr u, w'))"
    by (simp add: get_sequence_by_id_text guarded_block_def)
next
  assume a: "files w f = Some (TextFile c) \<and> open_w w p = Inr w1 \<and> write_budget w = None"
  have z: "zip (fst (parse_text c)) (snd (parse_text c)) = fasta_records c"
    by (simp add: parse_text_records zip_map_fst_snd)
  have "save_sequences_to_file (fst (parse_text c)) (snd (parse_text c)) (Some p) d None True w
      = (Inr (), w\<lparr>files := (files w)(p \<mapsto> TextFile (plain_lines (fasta_records c)))\<rparr>)"
    using a by (simp add: save_sequences_plain [of w p w1] z)
  with a show "get_sequence_by_id f (Some []) start end (Some p) d None True w
        = (Inr (), w\<lparr>files := (files w)(p \<mapsto> TextFile (plain_lines (fasta_records c)))\<rparr>)"
    by (simp add: get_sequence_by_id_text guarded_block_def normalized_def)
qed

theorem empty_identifier_selects_all_witness:
  "files (single_file ''in.fa'' ''>a\<newline>AC\<newline>>b\<newline>TT\<newline>'') ''in.fa''
     = Some (TextFile ''>a\<newline>AC\<newline>>b\<newline>TT\<newline>'') \<and>
   open_w (single_file ''in.fa'' ''>a\<newline>AC\<newline>>b\<newline>TT\<newline>'') ''out.txt''
     = Inr ((single_file ''in.fa'' ''>a\<newline>AC\<newline>>b\<newline>TT\<newline>'')
          \<lparr>files := (files (single_file ''in.fa'' ''>a\<newline>AC\<newline>>b\<newline>TT\<newline>''))
                     (''out.txt'' \<mapsto> TextFile [])\<rparr>) \<and>
   write_budget (single_file ''in.fa'' ''>a\<newline>AC\<newline>>b\<newline>TT\<newline>'') = None \<and>
   plain_lines (fasta_records ''>a\<newline>AC\<newline>>b\<newline>TT\<newline>'') = ''a\<newline>AC\<newline>b\<newline>TT\<newline>'' \<and>
   get_sequence_by_id ''in.fa'' (Some []) (Some 0) (Some 1) (Some ''out.txt'') tab None True
       (single_file ''in.fa'' ''>a\<newline>AC\<newline>>b\<newline>TT\<newline>'')
     = (Inr (), (single_file ''in.fa'' ''>a\<newline>AC\<newline>>b\<newline>TT\<newline>'')
          \<lparr>files := (files (single_file ''in.fa'' ''>a\<newline>AC\<newline>>b\<newline>TT\<newline>''))
                     (''out.txt'' \<mapsto> TextFile ''a\<newline>AC\<newline>b\<newline>TT\<newline>'')\<rparr>) \<and>
   open_w (single_file ''in.fa'' ''>a\<newline>AC\<newline>>b\<newline>TT\<newline>'') ''nodir/out.txt''
     = Inl FileNotFoundError \<and>
   get_sequence_by_id ''in.fa'' (Some []) None None (Some ''nodir/out.txt'') tab None True
       (single_file ''in.fa'' ''>a\<newline>AC\<newline>>b\<newline>TT\<newline>'')
     = (Inr (), print (Error_occurred FileNotFoundError)
                  (single_file ''in.fa'' ''>a\<newline>AC\<newline>>b\<newline>TT\<newline>''))"
proof -
  let ?c = "''>a\<newline>AC\<newline>>b\<newline>TT\<newline>''"
  let ?w = "single_file ''in.fa'' ?c"
  let ?o = "?w\<lparr>files := (files ?w)(''out.txt'' \<mapsto> TextFile [])\<rparr>"
  have 1: "files ?w ''in.fa'' = Some (TextFile ?c)" "write_budget ?w = None"
    by (simp_all add: single_file_def)
  have 2: "plain_lines (fasta_records ?c) = ''a\<newline>AC\<newline>b\<newline>TT\<newline>''"
    by (simp add: plain_lines_def fasta_records_def tail_records_def file_lines_def is_header_def
        joined_body_def complete_def strip_def isspace_def whitespace_def startswith_marker_def)
  have 3: "open_w ?w ''out.txt'' = Inr ?o"
    by (simp add: open_w_def dir_error_def is_directory_def dir_of_def base_of_def rstrip_slash_def single_file_def)
  have 4: "open_w ?w ''nodir/out.txt'' = Inl FileNotFoundError"
    by (simp add: open_w_def dir_error_def is_directory_def dir_of_def base_of_def rstrip_slash_def single_file_def)
  from empty_identifier_selects_all [of "''in.fa''" "Some 0" "Some 1" "Some ''out.txt''" tab None True
      ?w ?c "''out.txt''" ?o] 1 3
  have 5: "get_sequence_by_id ''in.fa'' (Some []) (Some 0) (Some 1) (Some ''out.txt'') tab None True ?w
        = (Inr (), ?w\<lparr>files := (files ?w)(''out.txt'' \<mapsto> TextFile (plain_lines (fasta_records ?c)))\<rparr>)"
    by blast
  have sv: "save_sequences_to_file (fst (parse_text ?c)) (snd (parse_text ?c))
      (Some ''nodir/out.txt'') tab (normalized None) True ?w = (Inl FileNotFoundError, ?w)"
    by (simp add: save_sequences_to_file_def 4)
  from empty_identifier_selects_all [of "''in.fa''" None None "Some ''nodir/out.txt''" tab None True
      ?w ?c "''nodir/out.txt''" ?w] 1
  have "get_sequence_by_id ''in.fa'' (Some []) None None (Some ''nodir/out.txt'') tab None True ?w
        = (case save_sequences_to_file (fst (parse_text ?c)) (snd (parse_text ?c))
                  (Some ''nodir/out.txt'') tab (normalized None) True ?w of
             (Inl e, w') \<Rightarrow> (Inr (), print (Error_occurred e) w')
           | (Inr u, w') \<Rightarrow> (Inr u, w'))"
    by blast
  then have 6: "get_sequence_by_id ''in.fa'' (Some []) None None (Some ''nodir/out.txt'') tab None
        True ?w = (Inr (), print (Error_occurred FileNotFoundError) ?w)"
    by (simp add: sv)
  from 1 2 3 4 5 6 show ?thesis by simp
qed

end
